theory Spec2Isabelle
  imports Main "HOL-Library.AList"
begin

section \<open>Python values and dictionaries\<close>

text \<open>
  The values that end up in a row handed to the database: a \<^verbatim>\<open>str\<close> (WARC header
  values, the serialized HTTP headers), a \<^verbatim>\<open>bytes\<close> object (the payload read from
  the content stream), an \<^verbatim>\<open>int\<close>, or \<^verbatim>\<open>None\<close>. Strings and bytes are both
  lists of \<^typ>\<open>char\<close>.
\<close>

datatype py_value = PyStr string | PyBytes string | PyInt int | PyNone

datatype py_error =
    ValueError string
  | TypeError
  | IntegrityError
  | AlterError
  | OperationalError

text \<open>
  A Python \<^verbatim>\<open>dict\<close> keeps its keys in insertion order, and assigning to a key that
  is already present replaces the value in place. This is what \<^const>\<open>AList.update\<close>
  does on an association list. \<^verbatim>\<open>d.update(items)\<close> assigns the items from left to
  right, and \<^verbatim>\<open>dict(items)\<close> does so starting from the empty dict.
\<close>

type_synonym row = "(string \<times> py_value) list"

definition dict_setitem :: "'k \<Rightarrow> 'v \<Rightarrow> ('k \<times> 'v) list \<Rightarrow> ('k \<times> 'v) list" where
  "dict_setitem k v d = AList.update k v d"

definition dict_update :: "('k \<times> 'v) list \<Rightarrow> ('k \<times> 'v) list \<Rightarrow> ('k \<times> 'v) list" where
  "dict_update d items = fold (\<lambda>(k, v). dict_setitem k v) items d"

definition py_dict :: "('k \<times> 'v) list \<Rightarrow> ('k \<times> 'v) list" where
  "py_dict items = dict_update [] items"

definition dict_get :: "('k \<times> 'v) list \<Rightarrow> 'k \<Rightarrow> 'v option" where
  "dict_get d k = map_of d k"

section \<open>\<^verbatim>\<open>json.dumps\<close> on the values the program serializes\<close>

text \<open>
  \<^verbatim>\<open>headers_to_json\<close> calls \<^verbatim>\<open>json.dumps\<close> with its default settings on a list of
  dicts of strings. With the defaults (\<^verbatim>\<open>ensure_ascii=True\<close>, separators
  \<^verbatim>\<open>', '\<close> and \<^verbatim>\<open>': '\<close>) a string is written between double quotes; the double
  quote and the backslash are escaped with a backslash, backspace, form feed, newline,
  carriage return and tab get their two-character escapes, the characters from space to
  tilde stand for themselves, and every other character is written as
  \<^verbatim>\<open>\uXXXX\<close> with four lower-case hexadecimal digits.
\<close>

datatype json = JString string | JArray "json list" | JObject "(string \<times> json) list"

definition dquote :: char where
  "dquote = CHR 0x22"

definition backslash :: char where
  "backslash = CHR 0x5C"

definition hexdigit :: "nat \<Rightarrow> char" where
  "hexdigit d = ''0123456789abcdef'' ! (d mod 16)"

definition hex4 :: "nat \<Rightarrow> string" where
  "hex4 n = [hexdigit (n div 4096), hexdigit (n div 256), hexdigit (n div 16), hexdigit n]"

definition escape_char :: "char \<Rightarrow> string" where
  "escape_char c =
     (if c = dquote then [backslash, dquote]
      else if c = backslash then [backslash, backslash]
      else if c = CHR 0x08 then [backslash, CHR ''b'']
      else if c = CHR 0x0C then [backslash, CHR ''f'']
      else if c = CHR 0x0A then [backslash, CHR ''n'']
      else if c = CHR 0x0D then [backslash, CHR ''r'']
      else if c = CHR 0x09 then [backslash, CHR ''t'']
      else if 0x20 \<le> (of_char c :: nat) \<and> (of_char c :: nat) \<le> 0x7E then [c]
      else [backslash, CHR ''u''] @ hex4 (of_char c))"

definition encode_basestring_ascii :: "string \<Rightarrow> string" where
  "encode_basestring_ascii s = [dquote] @ concat (map escape_char s) @ [dquote]"

fun join :: "string \<Rightarrow> string list \<Rightarrow> string" where
  "join sep [] = []"
| "join sep [x] = x"
| "join sep (x # y # ys) = x @ sep @ join sep (y # ys)"

fun dumps :: "json \<Rightarrow> string" where
  "dumps (JString s) = encode_basestring_ascii s"
| "dumps (JArray xs) = ''['' @ join '', '' (map dumps xs) @ '']''"
| "dumps (JObject kvs) =
     ''{'' @ join '', '' (map (\<lambda>(k, v). encode_basestring_ascii k @ '': '' @ dumps v) kvs) @ ''}''"

section \<open>Records of an archive\<close>

text \<open>
  A \<^verbatim>\<open>warcio.StatusAndHeaders\<close> object holds a status line and the list of
  (name, value) pairs in the order they were read, duplicates included. An
  \<^verbatim>\<open>ArcWarcRecord\<close> has its type, its WARC headers, and its HTTP headers, which are
  \<^verbatim>\<open>None\<close> for a record without an HTTP envelope.
\<close>

record status_and_headers =
  statusline :: string
  headers :: "(string \<times> string) list"

record arc_warc_record =
  rec_type :: string
  rec_headers :: status_and_headers
  http_headers :: "status_and_headers option"

text \<open>
  The method the program attaches to \<^verbatim>\<open>StatusAndHeaders\<close> as \<^verbatim>\<open>to_json\<close>. The
  dict \<^verbatim>\<open>{'header': h, 'value': v}\<close> it builds for a pair is \<open>header_object (h, v)\<close>.
\<close>

definition header_object :: "string \<times> string \<Rightarrow> json" where
  "header_object p = JObject [(''header'', JString (fst p)), (''value'', JString (snd p))]"

definition headers_to_json :: "status_and_headers \<Rightarrow> string" where
  "headers_to_json self = dumps (JArray (map header_object (headers self)))"

section \<open>Reading the serialized headers back\<close>

text \<open>
  A decoder for the text \<^const>\<open>headers_to_json\<close> writes: a JSON array of objects with the
  two members \<^verbatim>\<open>header\<close> and \<^verbatim>\<open>value\<close>, both strings. It undoes the escapes of
  JSON strings and gives the pairs back in the order of the array. A \<^verbatim>\<open>\uXXXX\<close> escape
  above 255 has no \<^typ>\<open>char\<close> and is refused.
\<close>

definition unhex :: "char \<Rightarrow> nat option" where
  "unhex c =
     (let n = (of_char c :: nat) in
      if 48 \<le> n \<and> n \<le> 57 then Some (n - 48)
      else if 97 \<le> n \<and> n \<le> 102 then Some (n - 87)
      else if 65 \<le> n \<and> n \<le> 70 then Some (n - 55)
      else None)"

definition unescape_char :: "char \<Rightarrow> char option" where
  "unescape_char e =
     (if e = dquote then Some dquote
      else if e = backslash then Some backslash
      else if e = CHR ''/'' then Some CHR ''/''
      else if e = CHR ''b'' then Some (CHR 0x08)
      else if e = CHR ''f'' then Some (CHR 0x0C)
      else if e = CHR ''n'' then Some (CHR 0x0A)
      else if e = CHR ''r'' then Some (CHR 0x0D)
      else if e = CHR ''t'' then Some (CHR 0x09)
      else None)"

definition unhex4 :: "char \<Rightarrow> char \<Rightarrow> char \<Rightarrow> char \<Rightarrow> char option" where
  "unhex4 a b c d =
     (case (unhex a, unhex b, unhex c, unhex d) of
        (Some x, Some y, Some z, Some w) \<Rightarrow>
          (let n = ((x * 16 + y) * 16 + z) * 16 + w in
           if n < 256 then Some (char_of n) else None)
      | _ \<Rightarrow> None)"

definition cons_fst :: "char \<Rightarrow> (string \<times> string) option \<Rightarrow> (string \<times> string) option" where
  "cons_fst c r = map_option (\<lambda>(s, rest). (c # s, rest)) r"

fun scan_chars :: "string \<Rightarrow> (string \<times> string) option" where
  "scan_chars [] = None"
| "scan_chars (c # cs) =
     (if c = dquote then Some ([], cs)
      else if c = backslash then
        (case cs of
           [] \<Rightarrow> None
         | e # cs' \<Rightarrow>
             if e = CHR ''u'' then
               (case cs' of
                  a # b # c' # d # rest \<Rightarrow>
                    (case unhex4 a b c' d of
                       None \<Rightarrow> None
                     | Some ch \<Rightarrow> cons_fst ch (scan_chars rest))
                | _ \<Rightarrow> None)
             else
               (case unescape_char e of
                  None \<Rightarrow> None
                | Some ch \<Rightarrow> cons_fst ch (scan_chars cs')))
      else cons_fst c (scan_chars cs))"

definition scan_string :: "string \<Rightarrow> (string \<times> string) option" where
  "scan_string s = (case s of [] \<Rightarrow> None | c # cs \<Rightarrow> if c = dquote then scan_chars cs else None)"

definition expect :: "string \<Rightarrow> string \<Rightarrow> string option" where
  "expect p s = (if take (length p) s = p then Some (drop (length p) s) else None)"

definition scan_member :: "string \<Rightarrow> string \<Rightarrow> (string \<times> string) option" where
  "scan_member key s =
     (case scan_string s of
        None \<Rightarrow> None
      | Some (k, s1) \<Rightarrow>
          if k \<noteq> key then None
          else (case expect '': '' s1 of None \<Rightarrow> None | Some s2 \<Rightarrow> scan_string s2))"

definition scan_pair :: "string \<Rightarrow> ((string \<times> string) \<times> string) option" where
  "scan_pair s =
     (case expect ''{'' s of
        None \<Rightarrow> None
      | Some s1 \<Rightarrow>
          (case scan_member ''header'' s1 of
             None \<Rightarrow> None
           | Some (h, s2) \<Rightarrow>
               (case expect '', '' s2 of
                  None \<Rightarrow> None
                | Some s3 \<Rightarrow>
                    (case scan_member ''value'' s3 of
                       None \<Rightarrow> None
                     | Some (v, s4) \<Rightarrow>
                         (case expect ''}'' s4 of
                            None \<Rightarrow> None
                          | Some s5 \<Rightarrow> Some ((h, v), s5))))))"

lemma scan_chars_length: "scan_chars s = Some (x, r) \<Longrightarrow> length r < length s"
proof (induction s arbitrary: x r rule: scan_chars.induct)
  case 1
  then show ?case by simp
next
  case (2 c cs)
  then show ?case
    by (auto simp: cons_fst_def split: if_splits list.splits option.splits) fastforce+
qed

lemma scan_string_length: "scan_string s = Some (x, r) \<Longrightarrow> length r < length s"
  by (auto simp: scan_string_def split: list.splits if_splits dest: scan_chars_length)

lemma expect_length: "expect p s = Some r \<Longrightarrow> length r \<le> length s"
  by (auto simp: expect_def split: if_splits)

lemma scan_member_length: "scan_member k s = Some (x, r) \<Longrightarrow> length r < length s"
  by (fastforce simp: scan_member_def split: option.splits if_splits
      dest: scan_string_length expect_length)

lemma scan_pair_length: "scan_pair s = Some (x, r) \<Longrightarrow> length r < length s"
  by (fastforce simp: scan_pair_def split: option.splits if_splits
      dest: scan_member_length expect_length)

function scan_more :: "string \<Rightarrow> (string \<times> string) list option" where
  "scan_more s =
     (if s = '']'' then Some []
      else (case expect '', '' s of
              None \<Rightarrow> None
            | Some s1 \<Rightarrow>
                (case scan_pair s1 of
                   None \<Rightarrow> None
                 | Some (p, s2) \<Rightarrow> map_option (Cons p) (scan_more s2))))"
  by pat_completeness auto
termination
proof (relation "measure length")
  show "wf (measure length)" by simp
next
  fix s s1 x p s2
  assume "expect '', '' s = Some s1" "scan_pair s1 = Some x" "(p, s2) = x"
  then show "(s2, s) \<in> measure length"
    using scan_pair_length [of s1 p s2] expect_length [of "'', ''" s s1] by simp
qed

definition loads_headers :: "string \<Rightarrow> (string \<times> string) list option" where
  "loads_headers s =
     (case expect ''['' s of
        None \<Rightarrow> None
      | Some s1 \<Rightarrow>
          if s1 = '']'' then Some []
          else (case scan_pair s1 of
                  None \<Rightarrow> None
                | Some (p, s2) \<Rightarrow> map_option (Cons p) (scan_more s2)))"

section \<open>The interpreter state\<close>

text \<open>
  Records are objects: \<^verbatim>\<open>functools.cache\<close> keys its entries by the identity of the
  record, and reading the content stream of a record changes that record. A record is
  therefore a reference into a heap. The attributes of a record are never assigned by the
  program; the unread part of its content stream is kept apart, since reading consumes it.

  The rest of the state is the cache of \<^verbatim>\<open>record_as_dict\<close>, the database behind the
  \<^verbatim>\<open>WarcDB\<close> object, what was printed and which warnings were issued.
\<close>

type_synonym ref = nat

datatype col_type = IntT | StrT | DatetimeT | BytesT

record db_table =
  table_pk :: string
  table_fks :: "(string \<times> string \<times> string) list"
  table_columns :: "(string \<times> col_type) list"
  table_rows :: "row list"

type_synonym database = "string \<Rightarrow> db_table option"

type_synonym cache_key = "ref \<times> bool list \<times> (string \<times> bool) list"

record world =
  heap :: "ref \<Rightarrow> arc_warc_record"
  stream :: "ref \<Rightarrow> string"
  cache :: "cache_key \<Rightarrow> row option"
  db :: database
  stdout :: "ref list"
  warnings :: "string list"

section \<open>\<^verbatim>\<open>record_as_dict\<close>\<close>

text \<open>
  The truth value of \<^verbatim>\<open>self.http_headers\<close>: \<^verbatim>\<open>None\<close> is false, and a
  \<^verbatim>\<open>StatusAndHeaders\<close> object has the truth value its class gives it. That class is
  warcio's, so its truth test is the parameter \<open>truth\<close> of everything below.
\<close>

definition py_bool :: "(status_and_headers \<Rightarrow> bool) \<Rightarrow> status_and_headers option \<Rightarrow> bool" where
  "py_bool truth h = (case h of None \<Rightarrow> False | Some e \<Rightarrow> truth e)"

text \<open>
  The rows the body of \<^verbatim>\<open>record_as_dict\<close> builds, given what
  \<^verbatim>\<open>self.content_stream().read()\<close> returns.
\<close>

definition build_row ::
  "(status_and_headers \<Rightarrow> bool) \<Rightarrow> arc_warc_record \<Rightarrow> bool \<Rightarrow> bool \<Rightarrow> string \<Rightarrow> row" where
  "build_row truth self with_http_headers with_payload payload =
     (let ret = [];
          ret = dict_update ret (py_dict (map (\<lambda>(k, v). (k, PyStr v)) (headers (rec_headers self))));
          ret = (if with_http_headers then
                   (if py_bool truth (http_headers self) then
                      dict_setitem ''http_headers'' (PyStr (headers_to_json (the (http_headers self)))) ret
                    else dict_setitem ''http_headers'' PyNone ret)
                 else ret)
      in if with_payload then dict_setitem ''payload'' (PyBytes payload) ret else ret)"

text \<open>
  The function as written, before \<^verbatim>\<open>@cache\<close> wraps it. Reading a stream returns
  all that is left of it and leaves it empty.
\<close>

definition record_as_dict_body ::
  "(status_and_headers \<Rightarrow> bool) \<Rightarrow> ref \<Rightarrow> bool \<Rightarrow> bool \<Rightarrow> world \<Rightarrow> row \<times> world" where
  "record_as_dict_body truth self with_http_headers with_payload w =
     (build_row truth (heap w self) with_http_headers with_payload (stream w self),
      if with_payload then w\<lparr>stream := (stream w)(self := [])\<rparr> else w)"

text \<open>
  A call \<^verbatim>\<open>r.as_dict(*ps, **kws)\<close> binds positional arguments to
  \<^verbatim>\<open>with_http_headers\<close> and \<^verbatim>\<open>with_payload\<close> in this order and keyword arguments
  by name; a parameter that gets no argument is \<^verbatim>\<open>False\<close>. Too many positional
  arguments, an unknown keyword and a parameter given twice are a \<^verbatim>\<open>TypeError\<close>.
\<close>

definition param_names :: "string list" where
  "param_names = [''with_http_headers'', ''with_payload'']"

definition param_value :: "bool list \<Rightarrow> (string \<times> bool) list \<Rightarrow> nat \<Rightarrow> bool" where
  "param_value ps kws i =
     (if i < length ps then ps ! i
      else (case map_of kws (param_names ! i) of Some b \<Rightarrow> b | None \<Rightarrow> False))"

definition bind_args :: "bool list \<Rightarrow> (string \<times> bool) list \<Rightarrow> py_error + bool \<times> bool" where
  "bind_args ps kws =
     (if length ps > length param_names then Inl TypeError
      else if list_ex (\<lambda>k. k \<notin> set param_names) (map fst kws) then Inl TypeError
      else if list_ex (\<lambda>k. k \<in> set (take (length ps) param_names)) (map fst kws) then Inl TypeError
      else Inr (param_value ps kws 0, param_value ps kws 1))"

text \<open>
  \<^verbatim>\<open>functools.cache\<close> builds its key from the arguments as they were passed: the
  positional ones, then the keyword ones in the order written. Calls that spell the same
  flags differently have different keys. On a hit the stored row is returned and the
  function is not run; on a miss the function runs and its result is stored. Nothing is
  ever evicted.
\<close>

definition record_as_dict ::
  "(status_and_headers \<Rightarrow> bool) \<Rightarrow> ref \<Rightarrow> bool list \<Rightarrow> (string \<times> bool) list \<Rightarrow> world
     \<Rightarrow> (py_error + row) \<times> world" where
  "record_as_dict truth self ps kws w =
     (case cache w (self, ps, kws) of
        Some ret \<Rightarrow> (Inr ret, w)
      | None \<Rightarrow>
          (case bind_args ps kws of
             Inl e \<Rightarrow> (Inl e, w)
           | Inr (with_http_headers, with_payload) \<Rightarrow>
               (let (ret, w') = record_as_dict_body truth self with_http_headers with_payload w
                in (Inr ret, w'\<lparr>cache := (cache w')((self, ps, kws) \<mapsto> ret)\<rparr>))))"

section \<open>The store\<close>

text \<open>
  Modelled from the spec: \<^verbatim>\<open>sqlite_utils\<close> is a library the program calls, so
  \<^verbatim>\<open>Table.insert\<close> follows the contract the specification gives for the storage
  adapter: \<^verbatim>\<open>insert(table_name, row, primary_key, foreign_keys, auto_alter_schema,
  on_conflict, column_type_hints)\<close>. A table that does not exist is created with the
  primary key and the foreign keys of the call. Columns the row has and the table lacks
  are added when \<open>alter\<close> is set, with the type the hints give or else the type of the
  value, and the rows the table holds stay as they are. A row whose primary key value is
  already in the table is left out when \<open>ignore\<close> is set: the row in the table is
  neither replaced nor repeated. A row with no value for the primary key conflicts with
  no row.
\<close>

record insert_options =
  pk :: string
  foreign_keys :: "(string \<times> string \<times> string) list"
  alter :: bool
  ignore :: bool
  columns :: "(string \<times> col_type) list"

definition row_pk :: "string \<Rightarrow> row \<Rightarrow> py_value option" where
  "row_pk k r = (case dict_get r k of None \<Rightarrow> None | Some PyNone \<Rightarrow> None | Some v \<Rightarrow> Some v)"

definition pk_conflict :: "string \<Rightarrow> row \<Rightarrow> row list \<Rightarrow> bool" where
  "pk_conflict k r rs =
     (case row_pk k r of None \<Rightarrow> False | Some v \<Rightarrow> Some v \<in> set (map (row_pk k) rs))"

definition value_type :: "py_value \<Rightarrow> col_type" where
  "value_type v = (case v of PyInt _ \<Rightarrow> IntT | PyBytes _ \<Rightarrow> BytesT | _ \<Rightarrow> StrT)"

definition missing_columns ::
  "(string \<times> col_type) list \<Rightarrow> row \<Rightarrow> (string \<times> col_type) list \<Rightarrow> (string \<times> col_type) list" where
  "missing_columns hints r cols =
     map (\<lambda>(k, v). (k, case map_of hints k of Some t \<Rightarrow> t | None \<Rightarrow> value_type v))
       (filter (\<lambda>(k, v). k \<notin> set (map fst cols)) r)"

definition create_table :: "insert_options \<Rightarrow> db_table" where
  "create_table opts =
     \<lparr>table_pk = pk opts, table_fks = foreign_keys opts, table_columns = [], table_rows = []\<rparr>"

definition table_insert :: "string \<Rightarrow> row \<Rightarrow> insert_options \<Rightarrow> database \<Rightarrow> py_error + database" where
  "table_insert name r opts d =
     (let t = (case d name of None \<Rightarrow> create_table opts | Some t \<Rightarrow> t);
          new = (if d name = None then [] else missing_columns (columns opts) r (table_columns t))
      in if new \<noteq> [] \<and> \<not> alter opts then Inl AlterError
         else
           (let t = t\<lparr>table_columns :=
                      table_columns t @ missing_columns (columns opts) r (table_columns t)\<rparr>
            in if pk_conflict (pk opts) r (table_rows t) then
                 (if ignore opts then Inr (d(name \<mapsto> t)) else Inl IntegrityError)
               else Inr (d(name \<mapsto> t\<lparr>table_rows := table_rows t @ [r]\<rparr>))))"

definition table_count :: "string \<Rightarrow> database \<Rightarrow> py_error + nat" where
  "table_count name d =
     (case d name of None \<Rightarrow> Inl OperationalError | Some t \<Rightarrow> Inr (length (table_rows t)))"

section \<open>\<^verbatim>\<open>WarcDB\<close>\<close>

record warcdb =
  batch_size :: int
  records_table :: string

definition WarcDB_init :: "string \<Rightarrow> int \<Rightarrow> warcdb" where
  "WarcDB_init db_path batch_size' = \<lparr>batch_size = batch_size', records_table = ''records''\<rparr>"

definition WarcDB_len :: "warcdb \<Rightarrow> world \<Rightarrow> py_error + nat" where
  "WarcDB_len self w = table_count (records_table self) (db w)"

definition col_type_conversions :: "(string \<times> col_type) list" where
  "col_type_conversions =
     [(''Content-Length'', IntT), (''payload'', StrT), (''WARC-Date'', DatetimeT)]"

text \<open>
  \<^verbatim>\<open>self.db.table(name).insert(row, ...)\<close> with the row an \<^verbatim>\<open>as_dict\<close> call gave:
  an exception of either call leaves the function at once.
\<close>

definition insert_row ::
  "string \<Rightarrow> (py_error + row) \<times> world \<Rightarrow> insert_options \<Rightarrow> (py_error + unit) \<times> world" where
  "insert_row name res opts =
     (case res of
        (Inl e, w) \<Rightarrow> (Inl e, w)
      | (Inr r, w) \<Rightarrow>
          (case table_insert name r opts (db w) of
             Inl e \<Rightarrow> (Inl e, w)
           | Inr d \<Rightarrow> (Inr (), w\<lparr>db := d\<rparr>)))"

definition unsupported_message :: "string \<Rightarrow> string" where
  "unsupported_message rt =
     ''Record type <'' @ rt @ ''> is not supported'' @
     ''Only [warcinfo, request, response, metadata, resource] are.''"

definition WarcDB_iadd ::
  "(status_and_headers \<Rightarrow> bool) \<Rightarrow> warcdb \<Rightarrow> ref \<Rightarrow> world \<Rightarrow> (py_error + warcdb) \<times> world" where
  "WarcDB_iadd truth self r w =
     (let done =
        (if rec_type (heap w r) = ''warcinfo'' then
           insert_row ''warcinfo''
             (record_as_dict truth r [] [(''with_payload'', True)] w)
             \<lparr>pk = ''WARC-Record-ID'', foreign_keys = [],
              alter = True, ignore = True, columns = col_type_conversions\<rparr>
         else if rec_type (heap w r) = ''request'' then
           insert_row ''request''
             (record_as_dict truth r [] [(''with_payload'', True), (''with_http_headers'', True)] w)
             \<lparr>pk = ''WARC-Record-ID'',
              foreign_keys = [(''WARC-Warcinfo-ID'', ''warcinfo'', ''WARC-Record-ID'')],
              alter = True, ignore = True, columns = col_type_conversions\<rparr>
         else if rec_type (heap w r) = ''response'' then
           insert_row ''response''
             (record_as_dict truth r [] [(''with_payload'', True), (''with_http_headers'', True)] w)
             \<lparr>pk = ''WARC-Record-ID'',
              foreign_keys = [(''WARC-Warcinfo-ID'', ''warcinfo'', ''WARC-Record-ID''),
                              (''WARC-Concurrent-To'', ''request'', ''WARC-Record-ID'')],
              alter = True, ignore = True, columns = col_type_conversions\<rparr>
         else if rec_type (heap w r) = ''metadata'' then
           insert_row ''metadata''
             (record_as_dict truth r [] [(''with_payload'', True)] w)
             \<lparr>pk = ''WARC-Record-ID'',
              foreign_keys = [(''WARC-Warcinfo-ID'', ''warcinfo'', ''WARC-Record-ID''),
                              (''WARC-Concurrent-To'', ''response'', ''WARC-Record-ID'')],
              alter = True, ignore = True, columns = col_type_conversions\<rparr>
         else if rec_type (heap w r) = ''resource'' then
           insert_row ''resource''
             (record_as_dict truth r [] [(''with_payload'', True)] w)
             \<lparr>pk = ''WARC-Record-ID'',
              foreign_keys = [(''WARC-Warcinfo-ID'', ''warcinfo'', ''WARC-Record-ID''),
                              (''WARC-Concurrent-To'', ''metadata'', ''WARC-Record-ID'')],
              alter = True, ignore = True, columns = col_type_conversions\<rparr>
         else (Inl (ValueError (unsupported_message (rec_type (heap w r)))), w))
      in case done of
           (Inl e, w') \<Rightarrow> (Inl e, w')
         | (Inr _, w') \<Rightarrow> (Inr self, w'))"

section \<open>The \<^verbatim>\<open>import\<close> command\<close>

text \<open>
  \<^verbatim>\<open>ArchiveIterator\<close> is warcio's: \<open>archive f\<close> is the list of records it yields for
  the file \<open>f\<close>, in the order of the file. The generator \<^verbatim>\<open>to_import\<close> prints each
  record before it yields it, and the loop adds each record to the database before it
  asks for the next one. An exception ends the command. The function has no
  \<^verbatim>\<open>return\<close> statement: its value is \<^verbatim>\<open>None\<close>. The function is named
  \<^verbatim>\<open>import_\<close> in the source.
\<close>

definition to_import :: "(string \<Rightarrow> ref list) \<Rightarrow> string list \<Rightarrow> ref list" where
  "to_import archive warc_path = concat (map archive warc_path)"

fun import_loop ::
  "(status_and_headers \<Rightarrow> bool) \<Rightarrow> warcdb \<Rightarrow> ref list \<Rightarrow> world \<Rightarrow> (py_error + warcdb) \<times> world" where
  "import_loop truth self [] w = (Inr self, w)"
| "import_loop truth self (r # rs) w =
     (case WarcDB_iadd truth self r (w\<lparr>stdout := stdout w @ [r]\<rparr>) of
        (Inl e, w') \<Rightarrow> (Inl e, w')
      | (Inr self', w') \<Rightarrow> import_loop truth self' rs w')"

definition batch_size_warning :: string where
  "batch_size_warning = ''--batch-size has been temporarily disabled''"

definition import_command ::
  "(status_and_headers \<Rightarrow> bool) \<Rightarrow> (string \<Rightarrow> ref list) \<Rightarrow> string \<Rightarrow> string list \<Rightarrow> int \<Rightarrow> world
     \<Rightarrow> (py_error + py_value) \<times> world" where
  "import_command truth archive db_path warc_path batch_size' w =
     (let self = WarcDB_init db_path batch_size';
          w = (if batch_size' \<noteq> 0 then w\<lparr>warnings := warnings w @ [batch_size_warning]\<rparr> else w)
      in case import_loop truth self (to_import archive warc_path) w of
           (Inl e, w') \<Rightarrow> (Inl e, w')
         | (Inr _, w') \<Rightarrow> (Inr PyNone, w'))"

section \<open>Example inputs\<close>

text \<open>
  The truth test of warcio's \<^verbatim>\<open>StatusAndHeaders\<close> objects: an object is true when it
  has a status line or at least one header. It stands for the parameter \<open>truth\<close> in
  the examples.
\<close>

definition envelope_truth :: "status_and_headers \<Rightarrow> bool" where
  "envelope_truth h = (statusline h \<noteq> [] \<or> headers h \<noteq> [])"

text \<open>The state of a process that has converted and stored nothing yet.\<close>

definition fresh_world :: "(ref \<Rightarrow> arc_warc_record) \<Rightarrow> (ref \<Rightarrow> string) \<Rightarrow> world" where
  "fresh_world h st =
     \<lparr>heap = h, stream = st, cache = (\<lambda>_. None), db = (\<lambda>_. None), stdout = [], warnings = []\<rparr>"

definition example_warcinfo :: arc_warc_record where
  "example_warcinfo =
     \<lparr>rec_type = ''warcinfo'',
      rec_headers = \<lparr>statusline = ''WARC/1.0'',
        headers = [(''WARC-Type'', ''warcinfo''), (''WARC-Record-ID'', ''<urn:uuid:1>'')]\<rparr>,
      http_headers = None\<rparr>"

definition example_request :: arc_warc_record where
  "example_request =
     \<lparr>rec_type = ''request'',
      rec_headers = \<lparr>statusline = ''WARC/1.0'',
        headers = [(''WARC-Type'', ''request''), (''WARC-Record-ID'', ''<urn:uuid:2>''),
                   (''WARC-Warcinfo-ID'', ''<urn:uuid:1>'')]\<rparr>,
      http_headers = Some \<lparr>statusline = ''GET / HTTP/1.1'',
        headers = [(''User-Agent'', ''x''), (''Accept'', ''*/*'')]\<rparr>\<rparr>"

definition example_revisit :: arc_warc_record where
  "example_revisit =
     \<lparr>rec_type = ''revisit'',
      rec_headers = \<lparr>statusline = ''WARC/1.0'',
        headers = [(''WARC-Type'', ''revisit''), (''WARC-Record-ID'', ''<urn:uuid:3>'')]\<rparr>,
      http_headers = None\<rparr>"

definition example_metadata :: arc_warc_record where
  "example_metadata =
     \<lparr>rec_type = ''metadata'',
      rec_headers = \<lparr>statusline = ''WARC/1.0'',
        headers = [(''WARC-Type'', ''metadata''), (''WARC-Record-ID'', ''<urn:uuid:4>''),
                   (''WARC-Concurrent-To'', ''<urn:uuid:2>''),
                   (''WARC-Concurrent-To'', ''<urn:uuid:5>'')]\<rparr>,
      http_headers = None\<rparr>"

definition example_heap :: "ref \<Rightarrow> arc_warc_record" where
  "example_heap = (\<lambda>_. example_warcinfo)(1 := example_request, 2 := example_revisit, 3 := example_metadata)"

definition example_stream :: "ref \<Rightarrow> string" where
  "example_stream = (\<lambda>_. ''software: warcio'')(1 := '''', 3 := ''via: x'')"

definition example_world :: world where
  "example_world = fresh_world example_heap example_stream"

text \<open>
  A response record whose HTTP block was blank: its envelope has an empty status line and
  no headers.
\<close>

definition example_response :: arc_warc_record where
  "example_response =
     \<lparr>rec_type = ''response'',
      rec_headers = \<lparr>statusline = ''WARC/1.0'',
        headers = [(''WARC-Type'', ''response''), (''WARC-Record-ID'', ''<urn:uuid:6>'')]\<rparr>,
      http_headers = Some \<lparr>statusline = [], headers = []\<rparr>\<rparr>"

definition empty_envelope_world :: world where
  "empty_envelope_world = fresh_world (\<lambda>_. example_response) (\<lambda>_. [])"

section \<open>The dispatch table of the specification\<close>

text \<open>
  The record types the router accepts, the flags of the row derivation and the foreign
  keys of each type, as the tables of the specification list them. The flags are
  (\<^verbatim>\<open>with_http_headers\<close>, \<^verbatim>\<open>with_payload\<close>).
\<close>

definition supported_types :: "string list" where
  "supported_types = [''warcinfo'', ''request'', ''response'', ''metadata'', ''resource'']"

definition spec_flags :: "string \<Rightarrow> bool \<times> bool" where
  "spec_flags rt = (rt = ''request'' \<or> rt = ''response'', True)"

definition spec_fk_edges :: "string \<Rightarrow> (string \<times> string \<times> string) list" where
  "spec_fk_edges rt =
     (if rt = ''request'' then [(''WARC-Warcinfo-ID'', ''warcinfo'', ''WARC-Record-ID'')]
      else if rt = ''response'' then
        [(''WARC-Warcinfo-ID'', ''warcinfo'', ''WARC-Record-ID''),
         (''WARC-Concurrent-To'', ''request'', ''WARC-Record-ID'')]
      else if rt = ''metadata'' then
        [(''WARC-Warcinfo-ID'', ''warcinfo'', ''WARC-Record-ID''),
         (''WARC-Concurrent-To'', ''response'', ''WARC-Record-ID'')]
      else if rt = ''resource'' then
        [(''WARC-Warcinfo-ID'', ''warcinfo'', ''WARC-Record-ID''),
         (''WARC-Concurrent-To'', ''metadata'', ''WARC-Record-ID'')]
      else [])"

text \<open>
  The keyword arguments \<^verbatim>\<open>__iadd__\<close> writes in its \<^verbatim>\<open>as_dict\<close> call for a type, and
  the options of its \<^verbatim>\<open>insert\<close> call with the foreign keys of the table above.
\<close>

definition as_dict_kwargs :: "string \<Rightarrow> (string \<times> bool) list" where
  "as_dict_kwargs rt =
     (if rt = ''request'' \<or> rt = ''response''
      then [(''with_payload'', True), (''with_http_headers'', True)]
      else [(''with_payload'', True)])"

definition insert_opts :: "string \<Rightarrow> insert_options" where
  "insert_opts rt =
     \<lparr>pk = ''WARC-Record-ID'', foreign_keys = spec_fk_edges rt,
      alter = True, ignore = True, columns = col_type_conversions\<rparr>"

text \<open>
  The rows a table holds (none when there is no such table), and the identifier of a
  record: the value its row has under \<^verbatim>\<open>WARC-Record-ID\<close>.
\<close>

definition stored_rows :: "string \<Rightarrow> world \<Rightarrow> row list" where
  "stored_rows name w = (case db w name of None \<Rightarrow> [] | Some t \<Rightarrow> table_rows t)"

definition record_id :: "arc_warc_record \<Rightarrow> string option" where
  "record_id self = map_of (rev (headers (rec_headers self))) ''WARC-Record-ID''"

section \<open>The ingestion driver of the specification\<close>

text \<open>
  The algorithm the specification gives for the driver: for each path in the order
  given, for each record of the file in file order, hand the record to the router. Here
  \<open>add_record\<close> is what the command does with one record, printing it and adding it to
  the store.
\<close>

definition add_record :: "(status_and_headers \<Rightarrow> bool) \<Rightarrow> warcdb \<Rightarrow> ref \<Rightarrow> world \<Rightarrow> world" where
  "add_record truth self r w = snd (WarcDB_iadd truth self r (w\<lparr>stdout := stdout w @ [r]\<rparr>))"

definition ingest_file :: "(status_and_headers \<Rightarrow> bool) \<Rightarrow> warcdb \<Rightarrow> ref list \<Rightarrow> world \<Rightarrow> world" where
  "ingest_file truth self rs w = fold (add_record truth self) rs w"

definition ingest_files ::
  "(status_and_headers \<Rightarrow> bool) \<Rightarrow> warcdb \<Rightarrow> (string \<Rightarrow> ref list) \<Rightarrow> string list \<Rightarrow> world \<Rightarrow> world" where
  "ingest_files truth self archive warc_path w =
     fold (\<lambda>f. ingest_file truth self (archive f)) warc_path w"

section \<open>States reached by the program\<close>

text \<open>
  The cache starts empty and only \<^verbatim>\<open>record_as_dict\<close> writes to it, so every row in it
  was built from its record with the flags its key binds. The keys of such a row are
  the header names of the record and the keys of the two flags. A record is covered by a
  store when the table of its type holds a row with its identifier and has a column for
  every key of its row.
\<close>

definition cache_ok :: "(status_and_headers \<Rightarrow> bool) \<Rightarrow> world \<Rightarrow> bool" where
  "cache_ok truth w =
     (\<forall>r ps kws ret. cache w (r, ps, kws) = Some ret \<longrightarrow>
        (\<exists>hh pl payload. bind_args ps kws = Inr (hh, pl) \<and>
           ret = build_row truth (heap w r) hh pl payload))"

definition row_keys :: "arc_warc_record \<Rightarrow> bool \<Rightarrow> bool \<Rightarrow> string set" where
  "row_keys self hh pl =
     set (map fst (headers (rec_headers self))) \<union>
     (if hh then {''http_headers''} else {}) \<union> (if pl then {''payload''} else {})"

definition covered :: "database \<Rightarrow> arc_warc_record \<Rightarrow> bool" where
  "covered d self =
     (case (d (rec_type self), record_id self) of
        (Some t, Some i) \<Rightarrow>
          Some (PyStr i) \<in> set (map (row_pk ''WARC-Record-ID'') (table_rows t)) \<and>
          row_keys self (fst (spec_flags (rec_type self))) (snd (spec_flags (rec_type self)))
            \<subseteq> set (map fst (table_columns t))
      | _ \<Rightarrow> False)"

section \<open>Dictionaries: lookups after updates\<close>

lemma dict_get_setitem:
  "dict_get (dict_setitem k v d) k' = (if k' = k then Some v else dict_get d k')"
  by (simp add: dict_get_def dict_setitem_def update_conv')

lemma map_of_dict_update:
  "map_of (dict_update d items) = map_of d ++ map_of (rev items)"
proof (induction items arbitrary: d)
  case Nil
  then show ?case by (simp add: dict_update_def)
next
  case (Cons a items)
  obtain k v where a: "a = (k, v)" by (cases a)
  have "map_of (dict_update d (a # items)) = map_of (dict_update (dict_setitem k v d) items)"
    by (simp add: dict_update_def a)
  also have "\<dots> = map_of (dict_setitem k v d) ++ map_of (rev items)"
    by (rule Cons.IH)
  also have "\<dots> = map_of d ++ map_of (rev (a # items))"
    by (rule ext) (simp add: dict_setitem_def update_conv' a map_add_def split: option.split)
  finally show ?case .
qed

lemma keys_dict_update:
  "set (map fst (dict_update d items)) = set (map fst d) \<union> set (map fst items)"
proof (induction items arbitrary: d)
  case Nil
  then show ?case by (simp add: dict_update_def)
next
  case (Cons a items)
  obtain k v where a: "a = (k, v)" by (cases a)
  have "dict_update d (a # items) = dict_update (dict_setitem k v d) items"
    by (simp add: dict_update_def a)
  then show ?case
    using Cons.IH [of "dict_setitem k v d"] by (auto simp: a dict_setitem_def dom_update)
qed

lemma distinct_dict_update:
  "distinct (map fst d) \<Longrightarrow> distinct (map fst (dict_update d items))"
proof (induction items arbitrary: d)
  case Nil
  then show ?case by (simp add: dict_update_def)
next
  case (Cons a items)
  obtain k v where a: "a = (k, v)" by (cases a)
  have "dict_update d (a # items) = dict_update (dict_setitem k v d) items"
    by (simp add: dict_update_def a)
  then show ?case
    using Cons.IH [of "dict_setitem k v d"] Cons.prems by (simp add: dict_setitem_def distinct_update)
qed

lemma dict_get_py_dict: "dict_get (py_dict items) k = map_of (rev items) k"
  by (simp add: dict_get_def py_dict_def map_of_dict_update)

lemma distinct_py_dict: "distinct (map fst (py_dict items))"
  by (simp add: py_dict_def distinct_dict_update)

lemma map_of_rev_distinct: "distinct (map fst xs) \<Longrightarrow> map_of (rev xs) = map_of xs"
  by (rule map_of_inject_set [THEN iffD2]) (simp_all add: rev_map [symmetric])

lemma dict_get_update_py_dict:
  "dict_get (dict_update [] (py_dict items)) k = map_of (rev items) k"
  using map_of_rev_distinct [OF distinct_py_dict, of items]
  by (simp add: dict_get_def map_of_dict_update) (simp add: py_dict_def map_of_dict_update)

lemma map_of_rev_map_PyStr:
  "map_of (rev (map (\<lambda>(k, v). (k, PyStr v)) hs)) k = map_option PyStr (map_of (rev hs) k)"
  by (simp add: rev_map map_of_map)

lemma dict_get_build_row:
  "dict_get (build_row truth self hh pl payload) k =
     (if pl \<and> k = ''payload'' then Some (PyBytes payload)
      else if hh \<and> k = ''http_headers'' then
        Some (if py_bool truth (http_headers self) then PyStr (headers_to_json (the (http_headers self))) else PyNone)
      else map_option PyStr (map_of (rev (headers (rec_headers self))) k))"
  by (simp add: build_row_def Let_def dict_get_setitem dict_get_update_py_dict map_of_rev_map_PyStr)

section \<open>The decoder inverts \<^const>\<open>headers_to_json\<close>\<close>

lemma lt16: "(d::nat) < 16 \<longleftrightarrow> d \<in> set [0,1,2,3,4,5,6,7,8,9,10,11,12,13,14,15]"
  by simp arith

lemma unhex_hexdigit: "d < 16 \<Longrightarrow> unhex (hexdigit d) = Some d"
  unfolding lt16 by (auto simp: unhex_def hexdigit_def)

lemma unhex4_hex4: "unhex4 (hexdigit (of_char c div 4096)) (hexdigit (of_char c div 256)) (hexdigit (of_char c div 16)) (hexdigit (of_char c)) = Some c"
proof -
  let ?n = "of_char c :: nat"
  have n: "?n < 256" by simp
  have "?n < 4096" using n by linarith
  then have "?n div 4096 = 0" by (rule div_less)
  then have a: "hexdigit (?n div 4096) = CHR ''0''" by (simp add: hexdigit_def)
  have "?n div 256 = 0" using n by (rule div_less)
  then have b: "hexdigit (?n div 256) = CHR ''0''" by (simp add: hexdigit_def)
  have "?n div 16 < 16" using n by arith
  then have c: "unhex (hexdigit (?n div 16)) = Some (?n div 16)" by (rule unhex_hexdigit)
  have d: "unhex (hexdigit ?n) = Some (?n mod 16)"
    using unhex_hexdigit [of "?n mod 16"] by (simp add: hexdigit_def)
  have z: "unhex (CHR ''0'') = Some 0" by (simp add: unhex_def)
  have z': "unhex (hexdigit 0) = Some 0" by (simp add: unhex_hexdigit)
  have "(?n div 16) * 16 + ?n mod 16 = ?n" by simp
  then show ?thesis
    using n by (simp add: unhex4_def a b c d z z')
qed


lemma scan_escape_char: "scan_chars (escape_char c @ rest) = cons_fst c (scan_chars rest)"
proof -
  consider (q) "c = dquote" | (b) "c = backslash"
    | (ctl) "c \<in> {CHR 0x08, CHR 0x0C, CHR 0x0A, CHR 0x0D, CHR 0x09}"
    | (pr) "c \<noteq> dquote" "c \<noteq> backslash" "0x20 \<le> (of_char c :: nat)" "(of_char c :: nat) \<le> 0x7E"
    | (u) "c \<noteq> dquote" "c \<noteq> backslash" "c \<notin> {CHR 0x08, CHR 0x0C, CHR 0x0A, CHR 0x0D, CHR 0x09}"
          "\<not> (0x20 \<le> (of_char c :: nat) \<and> (of_char c :: nat) \<le> 0x7E)"
    by blast
  then show ?thesis
  proof cases
    case q
    then show ?thesis
      by (simp add: escape_char_def unescape_char_def dquote_def backslash_def)
  next
    case b
    then show ?thesis
      by (simp add: escape_char_def unescape_char_def dquote_def backslash_def)
  next
    case ctl
    then show ?thesis
      by (auto simp add: escape_char_def unescape_char_def dquote_def backslash_def)
  next
    case pr
    then have "escape_char c = [c]"
      by (auto simp add: escape_char_def)
    with pr show ?thesis
      by simp
  next
    case u
    then have "escape_char c = [backslash, CHR ''u''] @ hex4 (of_char c)"
      by (auto simp add: escape_char_def)
    then show ?thesis
      using unhex4_hex4 [of c] by (simp add: hex4_def dquote_def backslash_def)
  qed
qed

lemma scan_chars_escaped:
  "scan_chars (concat (map escape_char s) @ dquote # rest) = Some (s, rest)"
  by (induction s) (simp_all add: scan_escape_char cons_fst_def)

lemma scan_string_encoded:
  "scan_string (encode_basestring_ascii s @ rest) = Some (s, rest)"
  by (simp add: scan_string_def encode_basestring_ascii_def scan_chars_escaped)

lemma expect_prefix: "expect p (p @ rest) = Some rest"
  by (simp add: expect_def)

lemma scan_member_encoded:
  "scan_member k (encode_basestring_ascii k @ '': '' @ encode_basestring_ascii v @ rest) = Some (v, rest)"
  using expect_prefix [of "'': ''"]
  by (simp add: scan_member_def scan_string_encoded)

lemma scan_pair_dumps:
  "scan_pair (dumps (header_object p) @ rest) = Some (p, rest)"
proof -
  have "dumps (header_object p) @ rest =
      ''{'' @ (encode_basestring_ascii ''header'' @ '': '' @ encode_basestring_ascii (fst p) @
        ('', '' @ (encode_basestring_ascii ''value'' @ '': '' @ encode_basestring_ascii (snd p) @
          (''}'' @ rest))))"
    by (simp add: header_object_def)
  then show ?thesis
    by (simp only: scan_pair_def expect_prefix scan_member_encoded option.case prod.case prod.collapse)
qed

lemma dumps_header_object_nonempty: "dumps (header_object p) \<noteq> []"
  by (simp add: header_object_def)

lemma scan_more_dumps:
  "scan_more (concat (map (\<lambda>p. '', '' @ dumps (header_object p)) ps) @ '']'') = Some ps"
proof (induction ps)
  case Nil
  then show ?case by simp
next
  case (Cons p ps)
  have "scan_more ('', '' @ (dumps (header_object p) @ (concat (map (\<lambda>p. '', '' @ dumps (header_object p)) ps) @ '']''))) = Some (p # ps)"
    apply (subst scan_more.simps)
    apply (simp only: expect_prefix scan_pair_dumps option.case prod.case Cons.IH)
    apply simp
    done
  then show ?case by simp
qed

lemma join_concat: "join sep (x # xs) = x @ concat (map (\<lambda>y. sep @ y) xs)"
  by (induction xs arbitrary: x) simp_all

lemma loads_headers_to_json: "loads_headers (headers_to_json e) = Some (headers e)"
proof (cases "headers e")
  case Nil
  then show ?thesis
    by (simp add: headers_to_json_def loads_headers_def expect_def)
next
  case (Cons p ps)
  have "headers_to_json e =
      ''['' @ (dumps (header_object p) @ (concat (map (\<lambda>p. '', '' @ dumps (header_object p)) ps) @ '']''))"
    by (simp add: headers_to_json_def Cons join_concat comp_def)
  moreover have "dumps (header_object p) @ (concat (map (\<lambda>p. '', '' @ dumps (header_object p)) ps) @ '']'') \<noteq> '']''"
    by (simp add: header_object_def)
  ultimately show ?thesis
    by (simp only: loads_headers_def expect_prefix scan_pair_dumps scan_more_dumps option.case
        prod.case if_False option.map Cons)
qed

section \<open>The row of a record\<close>




section \<open>Calls of \<^verbatim>\<open>record_as_dict\<close>\<close>

lemma bind_args_kwargs: "bind_args [] (as_dict_kwargs rt) = Inr (spec_flags rt)"
  by (simp add: bind_args_def as_dict_kwargs_def spec_flags_def param_names_def param_value_def)

lemma record_as_dict_hit:
  "cache w (r, ps, kws) = Some ret \<Longrightarrow> record_as_dict truth r ps kws w = (Inr ret, w)"
  by (simp add: record_as_dict_def)

lemma record_as_dict_miss:
  "cache w (r, ps, kws) = None \<Longrightarrow> bind_args ps kws = Inr (hh, pl) \<Longrightarrow>
   record_as_dict truth r ps kws w =
     (Inr (build_row truth (heap w r) hh pl (stream w r)),
      (if pl then w\<lparr>stream := (stream w)(r := [])\<rparr> else w)
        \<lparr>cache := (cache w)((r, ps, kws) \<mapsto> build_row truth (heap w r) hh pl (stream w r))\<rparr>)"
  by (simp add: record_as_dict_def record_as_dict_body_def)

lemma record_as_dict_kwargs:
  "\<exists>ret w'. record_as_dict truth r [] (as_dict_kwargs rt) w = (Inr ret, w') \<and>
     heap w' = heap w \<and> db w' = db w \<and> stdout w' = stdout w \<and> warnings w' = warnings w \<and>
     cache w' (r, [], as_dict_kwargs rt) = Some ret"
proof (cases "cache w (r, [], as_dict_kwargs rt)")
  case None
  obtain hh pl where f: "spec_flags rt = (hh, pl)" by (cases "spec_flags rt")
  show ?thesis
    using record_as_dict_miss [OF None, of hh pl truth] bind_args_kwargs [of rt] f by simp
next
  case (Some ret)
  then show ?thesis by (simp add: record_as_dict_hit)
qed

section \<open>Inserts\<close>

lemma table_insert_ignore:
  "alter opts \<Longrightarrow> ignore opts \<Longrightarrow>
   table_insert name r opts d =
     Inr (d(name \<mapsto>
       (let t = (case d name of None \<Rightarrow> create_table opts | Some t \<Rightarrow> t);
            t = t\<lparr>table_columns := table_columns t @ missing_columns (columns opts) r (table_columns t)\<rparr>
        in if pk_conflict (pk opts) r (table_rows t) then t
           else t\<lparr>table_rows := table_rows t @ [r]\<rparr>)))"
  by (simp add: table_insert_def Let_def)

lemma table_insert_other:
  "table_insert name r opts d = Inr d' \<Longrightarrow> t \<noteq> name \<Longrightarrow> d' t = d t"
  by (auto simp: table_insert_def Let_def split: if_splits)

lemma iadd_supported:
  assumes "rec_type (heap w r) \<in> set supported_types"
  shows "WarcDB_iadd truth self r w =
     (case insert_row (rec_type (heap w r))
             (record_as_dict truth r [] (as_dict_kwargs (rec_type (heap w r))) w)
             (insert_opts (rec_type (heap w r))) of
        (Inl e, w') \<Rightarrow> (Inl e, w')
      | (Inr _, w') \<Rightarrow> (Inr self, w'))"
proof -
  from assms consider "rec_type (heap w r) = ''warcinfo''" | "rec_type (heap w r) = ''request''"
    | "rec_type (heap w r) = ''response''" | "rec_type (heap w r) = ''metadata''"
    | "rec_type (heap w r) = ''resource''"
    by (auto simp: supported_types_def)
  then show ?thesis
    by cases (simp_all add: WarcDB_iadd_def as_dict_kwargs_def insert_opts_def spec_fk_edges_def)
qed

lemma iadd_unsupported_eq:
  assumes "rec_type (heap w r) \<notin> set supported_types"
  shows "WarcDB_iadd truth self r w =
     (Inl (ValueError (unsupported_message (rec_type (heap w r)))), w)"
  using assms by (simp add: WarcDB_iadd_def supported_types_def)

lemma iadd_supported_result:
  assumes "rec_type (heap w r) \<in> set supported_types"
  shows "\<exists>ret w1 d.
     record_as_dict truth r [] (as_dict_kwargs (rec_type (heap w r))) w = (Inr ret, w1) \<and>
     table_insert (rec_type (heap w r)) ret (insert_opts (rec_type (heap w r))) (db w1) = Inr d \<and>
     WarcDB_iadd truth self r w = (Inr self, w1\<lparr>db := d\<rparr>) \<and>
     heap w1 = heap w \<and> db w1 = db w \<and> stdout w1 = stdout w \<and> warnings w1 = warnings w \<and>
     cache w1 (r, [], as_dict_kwargs (rec_type (heap w r))) = Some ret"
proof -
  let ?rt = "rec_type (heap w r)"
  obtain ret w1 where a: "record_as_dict truth r [] (as_dict_kwargs ?rt) w = (Inr ret, w1)"
    and fr: "heap w1 = heap w" "db w1 = db w" "stdout w1 = stdout w" "warnings w1 = warnings w"
      "cache w1 (r, [], as_dict_kwargs ?rt) = Some ret"
    using record_as_dict_kwargs [of truth r ?rt w] by blast
  obtain d where d: "table_insert ?rt ret (insert_opts ?rt) (db w1) = Inr d"
    using table_insert_ignore [of "insert_opts ?rt" ?rt ret "db w1"] by (simp add: insert_opts_def)
  have "WarcDB_iadd truth self r w = (Inr self, w1\<lparr>db := d\<rparr>)"
    by (simp add: iadd_supported [OF assms] a insert_row_def d)
  with a d fr show ?thesis by blast
qed

section \<open>Routing a record to its table\<close>

text \<open>
  Claim C1. For a record whose type is one of \<^verbatim>\<open>warcinfo\<close>, \<^verbatim>\<open>request\<close>,
  \<^verbatim>\<open>response\<close>, \<^verbatim>\<open>metadata\<close>, \<^verbatim>\<open>resource\<close>, \<^verbatim>\<open>__iadd__\<close> derives one row,
  with the flags the dispatch table gives for the type, and performs one insert of that
  row into the table named as the type, with \<^verbatim>\<open>WARC-Record-ID\<close> as primary key, the
  foreign keys of the dispatch table, \<open>alter\<close> and \<open>ignore\<close>. The insert succeeds, every
  other table is as before, the table of the type has its old rows and at most the new
  one after them, and the call returns the \<^verbatim>\<open>WarcDB\<close> object it was called on.
\<close>

theorem iadd_dispatch:
  assumes "rec_type (heap w r) \<in> set supported_types"
  shows "\<exists>ret w1 d.
     record_as_dict truth r [] (as_dict_kwargs (rec_type (heap w r))) w = (Inr ret, w1) \<and>
     bind_args [] (as_dict_kwargs (rec_type (heap w r))) = Inr (spec_flags (rec_type (heap w r))) \<and>
     table_insert (rec_type (heap w r)) ret
       \<lparr>pk = ''WARC-Record-ID'', foreign_keys = spec_fk_edges (rec_type (heap w r)),
        alter = True, ignore = True, columns = col_type_conversions\<rparr> (db w1) = Inr d \<and>
     WarcDB_iadd truth self r w = (Inr self, w1\<lparr>db := d\<rparr>) \<and>
     (\<forall>t. t \<noteq> rec_type (heap w r) \<longrightarrow> d t = db w t) \<and>
     (stored_rows (rec_type (heap w r)) (w1\<lparr>db := d\<rparr>) = stored_rows (rec_type (heap w r)) w \<or>
      stored_rows (rec_type (heap w r)) (w1\<lparr>db := d\<rparr>) = stored_rows (rec_type (heap w r)) w @ [ret])"
proof -
  let ?rt = "rec_type (heap w r)"
  obtain ret w1 d where a: "record_as_dict truth r [] (as_dict_kwargs ?rt) w = (Inr ret, w1)"
    and d: "table_insert ?rt ret (insert_opts ?rt) (db w1) = Inr d"
    and i: "WarcDB_iadd truth self r w = (Inr self, w1\<lparr>db := d\<rparr>)"
    and fr: "db w1 = db w"
    using iadd_supported_result [OF assms, of truth self] by blast
  have other: "\<forall>t. t \<noteq> ?rt \<longrightarrow> d t = db w t"
    using table_insert_other [OF d] fr by simp
  have rows: "stored_rows ?rt (w1\<lparr>db := d\<rparr>) = stored_rows ?rt w \<or>
      stored_rows ?rt (w1\<lparr>db := d\<rparr>) = stored_rows ?rt w @ [ret]"
    using d fr
    by (auto simp: table_insert_ignore insert_opts_def stored_rows_def Let_def create_table_def
        split: option.splits if_splits)
  from a d i other rows bind_args_kwargs [of ?rt] show ?thesis
    unfolding insert_opts_def by blast
qed

text \<open>The theorem at the request record of the examples, in a fresh process.\<close>

theorem iadd_dispatch_witness:
  "rec_type (heap example_world 1) \<in> set supported_types \<and>
   fst (WarcDB_iadd envelope_truth (WarcDB_init ''a.warcdb'' 1000) 1 example_world) =
     Inr (WarcDB_init ''a.warcdb'' 1000) \<and>
   db (snd (WarcDB_iadd envelope_truth (WarcDB_init ''a.warcdb'' 1000) 1 example_world)) ''warcinfo'' = None"
proof -
  have s: "rec_type (heap example_world 1) \<in> set supported_types"
    by (simp add: example_world_def fresh_world_def example_heap_def example_request_def
        supported_types_def)
  have rt: "rec_type (heap example_world 1) = ''request''"
    by (simp add: example_world_def fresh_world_def example_heap_def example_request_def)
  have e: "db example_world ''warcinfo'' = None"
    by (simp add: example_world_def fresh_world_def)
  from iadd_dispatch [OF s, of envelope_truth "WarcDB_init ''a.warcdb'' 1000"] rt e
  have "fst (WarcDB_iadd envelope_truth (WarcDB_init ''a.warcdb'' 1000) 1 example_world) =
     Inr (WarcDB_init ''a.warcdb'' 1000) \<and>
   db (snd (WarcDB_iadd envelope_truth (WarcDB_init ''a.warcdb'' 1000) 1 example_world)) ''warcinfo'' = None"
    by auto
  with s show ?thesis by simp
qed

section \<open>The HTTP headers of a row\<close>

text \<open>
  Claim C5, as amended. When \<^verbatim>\<open>record_as_dict\<close> is asked for the HTTP headers, the row
  always has the key \<^verbatim>\<open>http_headers\<close>. The program tests \<^verbatim>\<open>self.http_headers\<close> by its
  truth value, and a \<^verbatim>\<open>StatusAndHeaders\<close> object is true when it has a status line or
  at least one header. For a record with such an envelope the value is the text
  \<^verbatim>\<open>json.dumps\<close> writes for the array of the objects
  \<^verbatim>\<open>{"header": name, "value": value}\<close>, one for each header pair in the order of the
  envelope, and decoding that text gives the header pairs back. For a record whose
  \<^verbatim>\<open>http_headers\<close> is \<^verbatim>\<open>None\<close>, and for a record whose envelope has neither a status
  line nor a header, the value is \<^verbatim>\<open>None\<close>.
\<close>

theorem record_as_dict_http_headers:
  "dict_get (fst (record_as_dict_body envelope_truth self True with_payload w)) ''http_headers'' =
     Some (case http_headers (heap w self) of
             None \<Rightarrow> PyNone
           | Some h \<Rightarrow>
               if statusline h = [] \<and> headers h = [] then PyNone
               else PyStr (dumps (JArray (map
                      (\<lambda>(n, v). JObject [(''header'', JString n), (''value'', JString v)])
                      (headers h))))) \<and>
   (\<forall>h. http_headers (heap w self) = Some h \<and> (statusline h \<noteq> [] \<or> headers h \<noteq> []) \<longrightarrow>
      (\<exists>s. dict_get (fst (record_as_dict_body envelope_truth self True with_payload w))
              ''http_headers'' = Some (PyStr s) \<and>
           loads_headers s = Some (headers h)))"
proof -
  let ?v = "dict_get (fst (record_as_dict_body envelope_truth self True with_payload w)) ''http_headers''"
  have obj: "header_object = (\<lambda>(n, v). JObject [(''header'', JString n), (''value'', JString v)])"
    by (simp add: fun_eq_iff header_object_def)
  have v: "?v = Some (if py_bool envelope_truth (http_headers (heap w self))
      then PyStr (headers_to_json (the (http_headers (heap w self)))) else PyNone)"
    by (simp add: record_as_dict_body_def dict_get_build_row)
  have 1: "?v = Some (case http_headers (heap w self) of
             None \<Rightarrow> PyNone
           | Some h \<Rightarrow>
               if statusline h = [] \<and> headers h = [] then PyNone
               else PyStr (dumps (JArray (map
                      (\<lambda>(n, v). JObject [(''header'', JString n), (''value'', JString v)])
                      (headers h)))))"
    unfolding v
    by (cases "http_headers (heap w self)")
      (auto simp: py_bool_def envelope_truth_def headers_to_json_def obj)
  have 2: "\<exists>s. ?v = Some (PyStr s) \<and> loads_headers s = Some (headers h)"
    if "http_headers (heap w self) = Some h" "statusline h \<noteq> [] \<or> headers h \<noteq> []" for h
  proof -
    from that have "?v = Some (PyStr (headers_to_json h))"
      unfolding v by (simp add: py_bool_def envelope_truth_def)
    with loads_headers_to_json [of h] show ?thesis by blast
  qed
  from 1 2 show ?thesis by blast
qed

text \<open>
  The theorem at the request record of the examples, with the text of its two headers
  written out, and at the warcinfo record, which has no envelope.
\<close>

theorem record_as_dict_http_headers_witness:
  "http_headers (heap example_world 1) =
     Some \<lparr>statusline = ''GET / HTTP/1.1'', headers = [(''User-Agent'', ''x''), (''Accept'', ''*/*'')]\<rparr> \<and>
   dict_get (fst (record_as_dict_body envelope_truth 1 True True example_world)) ''http_headers'' =
     Some (PyStr (''[{'' @ CHR 0x22 # ''header'' @ CHR 0x22 # '': '' @ CHR 0x22 # ''User-Agent'' @
        CHR 0x22 # '', '' @ CHR 0x22 # ''value'' @ CHR 0x22 # '': '' @ CHR 0x22 # ''x'' @ CHR 0x22 #
        ''}, {'' @ CHR 0x22 # ''header'' @ CHR 0x22 # '': '' @ CHR 0x22 # ''Accept'' @
        CHR 0x22 # '', '' @ CHR 0x22 # ''value'' @ CHR 0x22 # '': '' @ CHR 0x22 # ''*/*'' @ CHR 0x22 #
        ''}]'')) \<and>
   (\<exists>s. dict_get (fst (record_as_dict_body envelope_truth 1 True True example_world)) ''http_headers'' =
          Some (PyStr s) \<and>
        loads_headers s = Some [(''User-Agent'', ''x''), (''Accept'', ''*/*'')]) \<and>
   http_headers (heap example_world 0) = None \<and>
   dict_get (fst (record_as_dict_body envelope_truth 0 True True example_world)) ''http_headers'' = Some PyNone"
proof -
  let ?h = "\<lparr>statusline = ''GET / HTTP/1.1'', headers = [(''User-Agent'', ''x''), (''Accept'', ''*/*'')]\<rparr>"
  have a: "http_headers (heap example_world 1) = Some ?h"
    and n: "http_headers (heap example_world 0) = None"
    by (simp_all add: example_world_def fresh_world_def example_heap_def example_request_def
        example_warcinfo_def)
  note t1 = record_as_dict_http_headers [of 1 True example_world]
  note t0 = record_as_dict_http_headers [of 0 True example_world]
  from t1 [THEN conjunct1] a
  have 1: "dict_get (fst (record_as_dict_body envelope_truth 1 True True example_world)) ''http_headers'' =
     Some (PyStr (''[{'' @ CHR 0x22 # ''header'' @ CHR 0x22 # '': '' @ CHR 0x22 # ''User-Agent'' @
        CHR 0x22 # '', '' @ CHR 0x22 # ''value'' @ CHR 0x22 # '': '' @ CHR 0x22 # ''x'' @ CHR 0x22 #
        ''}, {'' @ CHR 0x22 # ''header'' @ CHR 0x22 # '': '' @ CHR 0x22 # ''Accept'' @
        CHR 0x22 # '', '' @ CHR 0x22 # ''value'' @ CHR 0x22 # '': '' @ CHR 0x22 # ''*/*'' @ CHR 0x22 #
        ''}]''))"
    by (simp add: encode_basestring_ascii_def escape_char_def dquote_def backslash_def)
  from t1 [THEN conjunct2] a
  have 2: "\<exists>s. dict_get (fst (record_as_dict_body envelope_truth 1 True True example_world)) ''http_headers'' =
          Some (PyStr s) \<and>
        loads_headers s = Some [(''User-Agent'', ''x''), (''Accept'', ''*/*'')]"
    by simp
  from t0 [THEN conjunct1] n
  have 3: "dict_get (fst (record_as_dict_body envelope_truth 0 True True example_world)) ''http_headers'' = Some PyNone"
    by simp
  from a 1 2 3 n show ?thesis by blast
qed

text \<open>
  Claim C5 as stated fails for a record that has an envelope with an empty status line and
  no headers: the value is \<^verbatim>\<open>None\<close>, not the serialized envelope, which would be the
  text of the empty array.
\<close>

theorem record_as_dict_empty_envelope_counterexample:
  "http_headers (heap empty_envelope_world 0) = Some \<lparr>statusline = [], headers = []\<rparr> \<and>
   headers_to_json \<lparr>statusline = [], headers = []\<rparr> = ''[]'' \<and>
   dict_get (fst (record_as_dict_body envelope_truth 0 True True empty_envelope_world)) ''http_headers'' =
     Some PyNone \<and>
   dict_get (fst (record_as_dict_body envelope_truth 0 True True empty_envelope_world)) ''http_headers'' \<noteq>
     Some (PyStr (headers_to_json \<lparr>statusline = [], headers = []\<rparr>))"
  by (simp add: empty_envelope_world_def fresh_world_def example_response_def headers_to_json_def
      record_as_dict_body_def dict_get_build_row py_bool_def envelope_truth_def)

lemma row_pk_build_row:
  "row_pk ''WARC-Record-ID'' (build_row truth self hh pl payload) = map_option PyStr (record_id self)"
  by (simp add: row_pk_def dict_get_build_row record_id_def split: option.splits)

section \<open>Frame lemmas\<close>

lemma heap_iadd: "heap (snd (WarcDB_iadd truth self r w)) = heap w"
proof (cases "rec_type (heap w r) \<in> set supported_types")
  case True
  from iadd_supported_result [OF True, of truth self] show ?thesis by auto
next
  case False
  then show ?thesis by (simp add: iadd_unsupported_eq)
qed

lemma iadd_ok: "rec_type (heap w r) \<in> set supported_types \<Longrightarrow> fst (WarcDB_iadd truth self r w) = Inr self"
  using iadd_supported_result [of w r truth self] by auto

lemma db_iadd_other:
  "t \<notin> set supported_types \<Longrightarrow> db (snd (WarcDB_iadd truth self r w)) t = db w t"
proof (cases "rec_type (heap w r) \<in> set supported_types")
  case True
  assume t: "t \<notin> set supported_types"
  obtain ret w1 d where d: "table_insert (rec_type (heap w r)) ret (insert_opts (rec_type (heap w r))) (db w1) = Inr d"
    and i: "WarcDB_iadd truth self r w = (Inr self, w1\<lparr>db := d\<rparr>)"
    and fr: "db w1 = db w"
    using iadd_supported_result [OF True, of truth self] by blast
  from t True have "t \<noteq> rec_type (heap w r)" by auto
  from table_insert_other [OF d this] i fr show ?thesis by simp
next
  case False
  then show ?thesis by (simp add: iadd_unsupported_eq)
qed

lemma import_loop_append:
  "import_loop truth self (xs @ ys) w =
     (case import_loop truth self xs w of
        (Inl e, w') \<Rightarrow> (Inl e, w')
      | (Inr self', w') \<Rightarrow> import_loop truth self' ys w')"
  by (induction xs arbitrary: self w) (auto split: prod.splits sum.splits)

lemma heap_import_loop: "heap (snd (import_loop truth self rs w)) = heap w"
proof (induction rs arbitrary: self w)
  case Nil
  then show ?case by simp
next
  case (Cons r rs)
  let ?w = "w\<lparr>stdout := stdout w @ [r]\<rparr>"
  have h: "heap (snd (WarcDB_iadd truth self r ?w)) = heap w"
    using heap_iadd [of truth self r ?w] by simp
  show ?case
  proof (cases "WarcDB_iadd truth self r ?w")
    case (Pair res w')
    with h have "heap w' = heap w" by simp
    with Pair Cons.IH [of _ w'] show ?thesis
      by (cases res) simp_all
  qed
qed

lemma import_loop_ok:
  "list_all (\<lambda>r. rec_type (heap w r) \<in> set supported_types) rs \<Longrightarrow>
   fst (import_loop truth self rs w) = Inr self"
proof (induction rs arbitrary: w)
  case Nil
  then show ?case by simp
next
  case (Cons r rs)
  let ?w = "w\<lparr>stdout := stdout w @ [r]\<rparr>"
  from Cons.prems have s: "rec_type (heap ?w r) \<in> set supported_types" by simp
  obtain w' where i: "WarcDB_iadd truth self r ?w = (Inr self, w')"
    using iadd_ok [OF s, of truth self] by (cases "WarcDB_iadd truth self r ?w") simp
  have "heap w' = heap w"
    using heap_iadd [of truth self r ?w] i by simp
  with Cons.prems have "list_all (\<lambda>r. rec_type (heap w' r) \<in> set supported_types) rs" by simp
  from Cons.IH [OF this] i show ?case by simp
qed

lemma db_import_loop_other:
  "t \<notin> set supported_types \<Longrightarrow> db (snd (import_loop truth self rs w)) t = db w t"
proof (induction rs arbitrary: self w)
  case Nil
  then show ?case by simp
next
  case (Cons r rs)
  let ?w = "w\<lparr>stdout := stdout w @ [r]\<rparr>"
  have h: "db (snd (WarcDB_iadd truth self r ?w)) t = db w t"
    using db_iadd_other [OF Cons.prems, of truth self r ?w] by simp
  show ?case
  proof (cases "WarcDB_iadd truth self r ?w")
    case (Pair res w')
    with h have "db w' t = db w t" by simp
    with Pair Cons.IH [OF Cons.prems, of _ w'] show ?thesis
      by (cases res) simp_all
  qed
qed

lemma import_loop_unsupported:
  assumes "rec_type (heap w r) \<notin> set supported_types"
    and "list_all (\<lambda>p. rec_type (heap w p) \<in> set supported_types) pre"
  shows "import_loop truth self (pre @ r # post) w =
           (Inl (ValueError (unsupported_message (rec_type (heap w r)))),
            (snd (import_loop truth self pre w))
              \<lparr>stdout := stdout (snd (import_loop truth self pre w)) @ [r]\<rparr>)"
proof -
  obtain w1 where pre: "import_loop truth self pre w = (Inr self, w1)"
    using import_loop_ok [OF assms(2), of truth self] by (cases "import_loop truth self pre w") simp
  let ?w2 = "w1\<lparr>stdout := stdout w1 @ [r]\<rparr>"
  have "heap w1 = heap w"
    using heap_import_loop [of truth self pre w] pre by simp
  with assms(1) have "rec_type (heap ?w2 r) \<notin> set supported_types" by simp
  from iadd_unsupported_eq [OF this, of truth self] \<open>heap w1 = heap w\<close>
  have "import_loop truth self (r # post) w1 =
      (Inl (ValueError (unsupported_message (rec_type (heap w r)))), ?w2)"
    by simp
  with pre show ?thesis
    by (simp add: import_loop_append)
qed

lemma import_command_unsupported:
  assumes "rec_type (heap w r) \<notin> set supported_types"
    and "list_all (\<lambda>p. rec_type (heap w p) \<in> set supported_types) pre"
    and "to_import archive warc_path = pre @ r # post"
  shows "fst (import_command truth archive db_path warc_path n w) =
           Inl (ValueError (unsupported_message (rec_type (heap w r))))"
proof -
  let ?w = "if n \<noteq> 0 then w\<lparr>warnings := warnings w @ [batch_size_warning]\<rparr> else w"
  have h: "heap ?w = heap w" by simp
  have u: "rec_type (heap ?w r) \<notin> set supported_types"
    unfolding h by (rule assms(1))
  have p: "list_all (\<lambda>p. rec_type (heap ?w p) \<in> set supported_types) pre"
    unfolding h by (rule assms(2))
  from import_loop_unsupported [OF u p, of truth "WarcDB_init db_path n" post]
  show ?thesis
    by (simp add: import_command_def Let_def assms(3) del: import_loop.simps split: if_splits)
qed

section \<open>Records of an unsupported type\<close>

text \<open>
  Claim C3. For a record whose type is not one of the five supported ones,
  \<^verbatim>\<open>__iadd__\<close> raises a \<^verbatim>\<open>ValueError\<close> that names the type and leaves the whole state,
  the store included, as it was. The error ends the run: when the records before it are
  of supported types, the loop of the import command stops at this record with that
  error, in the state the records before it left (the record itself has only been
  printed), whatever records follow; and the command ends with the error.
\<close>

theorem iadd_unsupported:
  assumes "rec_type (heap w r) \<notin> set supported_types"
    and "list_all (\<lambda>p. rec_type (heap w p) \<in> set supported_types) pre"
  shows "WarcDB_iadd truth self r w =
           (Inl (ValueError (unsupported_message (rec_type (heap w r)))), w) \<and>
         import_loop truth self (pre @ r # post) w =
           (Inl (ValueError (unsupported_message (rec_type (heap w r)))),
            (snd (import_loop truth self pre w))
              \<lparr>stdout := stdout (snd (import_loop truth self pre w)) @ [r]\<rparr>) \<and>
         (to_import archive warc_path = pre @ r # post \<longrightarrow>
            fst (import_command truth archive db_path warc_path n w) =
              Inl (ValueError (unsupported_message (rec_type (heap w r)))))"
  using iadd_unsupported_eq [OF assms(1), of truth self]
    import_loop_unsupported [OF assms, of truth self post]
    import_command_unsupported [OF assms, of archive warc_path post truth db_path n]
  by simp

section \<open>The length of a \<^verbatim>\<open>WarcDB\<close>\<close>

text \<open>
  Claim C10. \<^verbatim>\<open>__len__\<close> counts the rows of the table \<^verbatim>\<open>records\<close>. \<^verbatim>\<open>__iadd__\<close>
  never writes to that table, so the table and the result of \<^verbatim>\<open>__len__\<close> are the same
  after adding a record as before, and the same after adding any list of records.
\<close>

theorem iadd_keeps_len:
  assumes "records_table self = ''records''"
  shows "db (snd (WarcDB_iadd truth self' r w)) ''records'' = db w ''records'' \<and>
         WarcDB_len self (snd (WarcDB_iadd truth self' r w)) = WarcDB_len self w \<and>
         WarcDB_len self (snd (import_loop truth self' rs w)) = WarcDB_len self w"
proof -
  have n: "''records'' \<notin> set supported_types" by (simp add: supported_types_def)
  show ?thesis
    by (simp add: WarcDB_len_def table_count_def assms db_iadd_other [OF n] db_import_loop_other [OF n])
qed

text \<open>
  The theorem at the revisit record of the examples, after a warcinfo and a request record
  and before a metadata record.
\<close>

theorem iadd_unsupported_witness:
  "rec_type (heap example_world 2) \<notin> set supported_types \<and>
   list_all (\<lambda>p. rec_type (heap example_world p) \<in> set supported_types) [0, 1] \<and>
   WarcDB_iadd envelope_truth (WarcDB_init ''a.warcdb'' 1000) 2 example_world =
     (Inl (ValueError (unsupported_message ''revisit'')), example_world) \<and>
   fst (import_loop envelope_truth (WarcDB_init ''a.warcdb'' 1000) [0, 1, 2, 3] example_world) =
     Inl (ValueError (unsupported_message ''revisit''))"
proof -
  have 1: "rec_type (heap example_world 2) \<notin> set supported_types"
    and 2: "list_all (\<lambda>p. rec_type (heap example_world p) \<in> set supported_types) [0, 1]"
    and 3: "rec_type (heap example_world 2) = ''revisit''"
    by (simp_all add: example_world_def fresh_world_def example_heap_def example_request_def
        example_warcinfo_def example_revisit_def supported_types_def)
  from iadd_unsupported [OF 1 2, of envelope_truth "WarcDB_init ''a.warcdb'' 1000" "[3]"]
  have "WarcDB_iadd envelope_truth (WarcDB_init ''a.warcdb'' 1000) 2 example_world =
     (Inl (ValueError (unsupported_message ''revisit'')), example_world) \<and>
   fst (import_loop envelope_truth (WarcDB_init ''a.warcdb'' 1000) ([0, 1] @ 2 # [3]) example_world) =
     Inl (ValueError (unsupported_message ''revisit''))"
    by (simp only: 3 fst_conv)
  with 1 2 show ?thesis by simp
qed

text \<open>
  The theorem in a fresh process: there is no table \<^verbatim>\<open>records\<close>, before or after three
  records are added.
\<close>

theorem iadd_keeps_len_witness:
  "records_table (WarcDB_init ''a.warcdb'' 1000) = ''records'' \<and>
   WarcDB_len (WarcDB_init ''a.warcdb'' 1000) example_world = Inl OperationalError \<and>
   WarcDB_len (WarcDB_init ''a.warcdb'' 1000)
     (snd (import_loop envelope_truth (WarcDB_init ''a.warcdb'' 1000) [0, 1, 3] example_world)) =
     Inl OperationalError"
proof -
  have 1: "records_table (WarcDB_init ''a.warcdb'' 1000) = ''records''"
    by (simp add: WarcDB_init_def)
  have 2: "WarcDB_len (WarcDB_init ''a.warcdb'' 1000) example_world = Inl OperationalError"
    by (simp add: WarcDB_len_def table_count_def WarcDB_init_def example_world_def fresh_world_def)
  from iadd_keeps_len [OF 1, of envelope_truth "WarcDB_init ''a.warcdb'' 1000" 0 example_world "[0, 1, 3]"] 1 2
  show ?thesis by simp
qed

section \<open>The cache only grows\<close>

lemma record_as_dict_cases:
  obtains (hit) ret where "cache w (r, ps, kws) = Some ret"
      "record_as_dict truth r ps kws w = (Inr ret, w)"
  | (error) e where "cache w (r, ps, kws) = None" "bind_args ps kws = Inl e"
      "record_as_dict truth r ps kws w = (Inl e, w)"
  | (miss) hh pl where "cache w (r, ps, kws) = None" "bind_args ps kws = Inr (hh, pl)"
      "record_as_dict truth r ps kws w =
        (Inr (build_row truth (heap w r) hh pl (stream w r)),
         (if pl then w\<lparr>stream := (stream w)(r := [])\<rparr> else w)
           \<lparr>cache := (cache w)((r, ps, kws) \<mapsto> build_row truth (heap w r) hh pl (stream w r))\<rparr>)"
proof (cases "cache w (r, ps, kws)")
  case (Some ret)
  then show ?thesis using hit by (simp add: record_as_dict_hit)
next
  case None
  show ?thesis
  proof (cases "bind_args ps kws")
    case (Inl e)
    with None show ?thesis using error by (simp add: record_as_dict_def)
  next
    case (Inr f)
    obtain hh pl where "f = (hh, pl)" by (cases f)
    with None Inr show ?thesis using miss record_as_dict_miss [OF None, where hh = hh and pl = pl and truth = truth] by simp
  qed
qed

lemma cache_record_as_dict: "cache w \<subseteq>\<^sub>m cache (snd (record_as_dict truth r ps kws w))"
  by (cases rule: record_as_dict_cases [of w r ps kws truth]) (auto simp: map_le_def)

lemma record_as_dict_stores:
  "record_as_dict truth r ps kws w = (Inr ret, w1) \<Longrightarrow> cache w1 (r, ps, kws) = Some ret"
  by (cases rule: record_as_dict_cases [of w r ps kws truth]) auto

lemma cache_iadd: "cache w \<subseteq>\<^sub>m cache (snd (WarcDB_iadd truth self r w))"
proof (cases "rec_type (heap w r) \<in> set supported_types")
  case True
  obtain ret w1 d where a: "record_as_dict truth r [] (as_dict_kwargs (rec_type (heap w r))) w = (Inr ret, w1)"
    and i: "WarcDB_iadd truth self r w = (Inr self, w1\<lparr>db := d\<rparr>)"
    using iadd_supported_result [OF True, of truth self] by blast
  from cache_record_as_dict [of w truth r "[]" "as_dict_kwargs (rec_type (heap w r))"] a i
  show ?thesis by simp
next
  case False
  then show ?thesis by (simp add: iadd_unsupported_eq)
qed

text \<open>
  Claim C7, as amended. For a fixed record and a fixed way of writing the arguments (the
  same positional arguments and the same keyword arguments in the same order), once a
  call of \<^verbatim>\<open>record_as_dict\<close> has returned a row, every later call returns that row and
  changes nothing, so the stream is not read again. Later means any state whose cache
  holds the entries of the cache after the first call, and the cache keeps all its
  entries through every call of \<^verbatim>\<open>record_as_dict\<close> and of \<^verbatim>\<open>__iadd__\<close>.

  A call for the same record that writes the arguments in another way, one not used
  before, has an entry of its own, also when it binds the same flags: it converts the
  record again, reads what is left of the stream, and stores its row under its own key.
  When the first call converted the record with the payload, it left the stream empty.
\<close>

theorem record_as_dict_cached:
  assumes "record_as_dict truth r ps kws w = (Inr ret, w1)"
  shows "(\<forall>w2. cache w1 \<subseteq>\<^sub>m cache w2 \<longrightarrow> record_as_dict truth r ps kws w2 = (Inr ret, w2)) \<and>
         cache w1 \<subseteq>\<^sub>m cache (snd (record_as_dict truth r' ps' kws' w1)) \<and>
         cache w1 \<subseteq>\<^sub>m cache (snd (WarcDB_iadd truth self r' w1)) \<and>
         (\<forall>qs lws hh pl.
            (qs, lws) \<noteq> (ps, kws) \<and> cache w (r, qs, lws) = None \<and> bind_args qs lws = Inr (hh, pl) \<longrightarrow>
            record_as_dict truth r qs lws w1 =
              (Inr (build_row truth (heap w r) hh pl (stream w1 r)),
               (if pl then w1\<lparr>stream := (stream w1)(r := [])\<rparr> else w1)
                 \<lparr>cache := (cache w1)((r, qs, lws) \<mapsto> build_row truth (heap w r) hh pl (stream w1 r))\<rparr>)) \<and>
         (\<forall>hh. cache w (r, ps, kws) = None \<and> bind_args ps kws = Inr (hh, True) \<longrightarrow>
            ret = build_row truth (heap w r) hh True (stream w r) \<and> stream w1 r = []) \<and>
         (\<forall>qs lws hh.
            (qs, lws) \<noteq> (ps, kws) \<and> cache w (r, ps, kws) = None \<and> cache w (r, qs, lws) = None \<and>
            bind_args ps kws = Inr (hh, True) \<and> bind_args qs lws = Inr (hh, True) \<longrightarrow>
            ret = build_row truth (heap w r) hh True (stream w r) \<and>
            fst (record_as_dict truth r qs lws w1) = Inr (build_row truth (heap w r) hh True []))"
proof -
  have c: "cache w1 (r, ps, kws) = Some ret"
    using assms by (rule record_as_dict_stores)
  have hit: "record_as_dict truth r ps kws w2 = (Inr ret, w2)" if "cache w1 \<subseteq>\<^sub>m cache w2" for w2
  proof -
    from that c have "cache w2 (r, ps, kws) = Some ret"
      by (auto simp: map_le_def dom_def)
    then show ?thesis by (rule record_as_dict_hit)
  qed
  have h1: "heap w1 = heap w"
    and other: "cache w1 (r, qs, lws) = cache w (r, qs, lws)" if "(qs, lws) \<noteq> (ps, kws)" for qs lws
    using assms that
    by (cases rule: record_as_dict_cases [of w r ps kws truth]; auto)+
  have miss: "record_as_dict truth r qs lws w1 =
        (Inr (build_row truth (heap w r) hh pl (stream w1 r)),
         (if pl then w1\<lparr>stream := (stream w1)(r := [])\<rparr> else w1)
           \<lparr>cache := (cache w1)((r, qs, lws) \<mapsto> build_row truth (heap w r) hh pl (stream w1 r))\<rparr>)"
    if "(qs, lws) \<noteq> (ps, kws)" "cache w (r, qs, lws) = None" "bind_args qs lws = Inr (hh, pl)"
    for qs lws hh pl
  proof -
    from that(1,2) have "cache w1 (r, qs, lws) = None" by (simp add: other)
    from record_as_dict_miss [OF this that(3), of truth] show ?thesis
      by (simp only: h1 [OF that(1)])
  qed
  have drained: "ret = build_row truth (heap w r) hh True (stream w r) \<and> stream w1 r = []"
    if "cache w (r, ps, kws) = None" "bind_args ps kws = Inr (hh, True)" for hh
    using record_as_dict_miss [OF that, of truth] assms by auto
  have again: "ret = build_row truth (heap w r) hh True (stream w r) \<and>
      fst (record_as_dict truth r qs lws w1) = Inr (build_row truth (heap w r) hh True [])"
    if "(qs, lws) \<noteq> (ps, kws)" "cache w (r, ps, kws) = None" "cache w (r, qs, lws) = None"
      "bind_args ps kws = Inr (hh, True)" "bind_args qs lws = Inr (hh, True)" for qs lws hh
    using drained [OF that(2,4)] miss [OF that(1,3,5)] by simp
  from hit miss drained again show ?thesis
    by (simp add: cache_record_as_dict cache_iadd)
qed

text \<open>
  The theorem at the warcinfo record of the examples: the call is repeated after a
  request record was added to the store.
\<close>

theorem record_as_dict_cached_witness:
  "record_as_dict envelope_truth 0 [] [(''with_payload'', True)] example_world =
     (Inr [(''WARC-Type'', PyStr ''warcinfo''), (''WARC-Record-ID'', PyStr ''<urn:uuid:1>''),
           (''payload'', PyBytes ''software: warcio'')],
      snd (record_as_dict envelope_truth 0 [] [(''with_payload'', True)] example_world)) \<and>
   fst (record_as_dict envelope_truth 0 [] [(''with_payload'', True)]
      (snd (WarcDB_iadd envelope_truth (WarcDB_init ''a.warcdb'' 1000) 1
         (snd (record_as_dict envelope_truth 0 [] [(''with_payload'', True)] example_world))))) =
     Inr [(''WARC-Type'', PyStr ''warcinfo''), (''WARC-Record-ID'', PyStr ''<urn:uuid:1>''),
          (''payload'', PyBytes ''software: warcio'')]"
proof -
  let ?ret = "[(''WARC-Type'', PyStr ''warcinfo''), (''WARC-Record-ID'', PyStr ''<urn:uuid:1>''),
           (''payload'', PyBytes ''software: warcio'')]"
  let ?w1 = "snd (record_as_dict envelope_truth 0 [] [(''with_payload'', True)] example_world)"
  have 1: "record_as_dict envelope_truth 0 [] [(''with_payload'', True)] example_world = (Inr ?ret, ?w1)"
    by (simp add: record_as_dict_def record_as_dict_body_def example_world_def fresh_world_def
        bind_args_def param_names_def param_value_def build_row_def dict_update_def py_dict_def
        dict_setitem_def example_heap_def example_warcinfo_def example_stream_def)
  note t = record_as_dict_cached [OF 1, where r' = 1 and self = "WarcDB_init ''a.warcdb'' 1000"]
  from t [THEN conjunct1] t [THEN conjunct2, THEN conjunct2, THEN conjunct1] 1
  show ?thesis by simp
qed

text \<open>
  Claim C7 as stated fails when the same flags are written in another way. Both calls
  below bind both flags to \<^verbatim>\<open>True\<close> for the same record, but the keyword arguments are
  in a different order, so the second call misses the cache, reads the drained stream
  again and returns a row with an empty payload.
\<close>

theorem record_as_dict_keyword_order_counterexample:
  "bind_args [] [(''with_payload'', True), (''with_http_headers'', True)] = Inr (True, True) \<and>
   bind_args [] [(''with_http_headers'', True), (''with_payload'', True)] = Inr (True, True) \<and>
   fst (record_as_dict envelope_truth 0 [] [(''with_payload'', True), (''with_http_headers'', True)]
          example_world) =
     Inr [(''WARC-Type'', PyStr ''warcinfo''), (''WARC-Record-ID'', PyStr ''<urn:uuid:1>''),
          (''http_headers'', PyNone), (''payload'', PyBytes ''software: warcio'')] \<and>
   fst (record_as_dict envelope_truth 0 [] [(''with_http_headers'', True), (''with_payload'', True)]
          (snd (record_as_dict envelope_truth 0 [] [(''with_payload'', True), (''with_http_headers'', True)]
             example_world))) =
     Inr [(''WARC-Type'', PyStr ''warcinfo''), (''WARC-Record-ID'', PyStr ''<urn:uuid:1>''),
          (''http_headers'', PyNone), (''payload'', PyBytes [])]"
  by (simp add: record_as_dict_def record_as_dict_body_def example_world_def fresh_world_def
      bind_args_def param_names_def param_value_def build_row_def dict_update_def py_dict_def
      dict_setitem_def example_heap_def example_warcinfo_def example_stream_def py_bool_def)

section \<open>The loop of the import command\<close>

lemma stdout_iadd: "stdout (snd (WarcDB_iadd truth self r w)) = stdout w"
proof (cases "rec_type (heap w r) \<in> set supported_types")
  case True
  from iadd_supported_result [OF True, of truth self] show ?thesis by auto
next
  case False
  then show ?thesis by (simp add: iadd_unsupported_eq)
qed

lemma warnings_iadd: "warnings (snd (WarcDB_iadd truth self r w)) = warnings w"
proof (cases "rec_type (heap w r) \<in> set supported_types")
  case True
  from iadd_supported_result [OF True, of truth self] show ?thesis by auto
next
  case False
  then show ?thesis by (simp add: iadd_unsupported_eq)
qed

lemma fold_concat_lists: "fold f (concat xss) = fold (fold f) xss"
  by (induction xss) simp_all

lemma ingest_file_fold: "ingest_file truth self rs = fold (add_record truth self) rs"
  by (rule ext) (simp add: ingest_file_def)

lemma import_loop_fold:
  "list_all (\<lambda>r. rec_type (heap w r) \<in> set supported_types) rs \<Longrightarrow>
   import_loop truth self rs w = (Inr self, fold (add_record truth self) rs w)"
proof (induction rs arbitrary: w)
  case Nil
  then show ?case by simp
next
  case (Cons r rs)
  let ?w = "w\<lparr>stdout := stdout w @ [r]\<rparr>"
  from Cons.prems have s: "rec_type (heap ?w r) \<in> set supported_types" by simp
  have i: "WarcDB_iadd truth self r ?w = (Inr self, add_record truth self r w)"
    using iadd_ok [OF s, of truth self]
    by (cases "WarcDB_iadd truth self r ?w") (simp add: add_record_def)
  have h: "heap (add_record truth self r w) = heap w"
    using heap_iadd [of truth self r ?w] by (simp add: add_record_def)
  from Cons.prems have "list_all (\<lambda>r. rec_type (heap w r) \<in> set supported_types) rs"
    by simp
  then have "list_all (\<lambda>p. rec_type (heap (add_record truth self r w) p) \<in> set supported_types) rs"
    by (simp only: h)
  from Cons.IH [OF this] i show ?case by simp
qed

lemma stdout_fold_add_record: "stdout (fold (add_record truth self) rs w) = stdout w @ rs"
proof (induction rs arbitrary: w)
  case Nil
  then show ?case by simp
next
  case (Cons r rs)
  have "stdout (add_record truth self r w) = stdout w @ [r]"
    by (simp add: add_record_def stdout_iadd)
  with Cons.IH [of "add_record truth self r w"] show ?case by simp
qed

lemma import_command_ok:
  assumes "list_all (\<lambda>r. rec_type (heap w r) \<in> set supported_types) (to_import archive warc_path)"
  shows "import_command truth archive db_path warc_path n w =
     (Inr PyNone,
      ingest_files truth (WarcDB_init db_path n) archive warc_path
        (if n \<noteq> 0 then w\<lparr>warnings := warnings w @ [batch_size_warning]\<rparr> else w))"
proof -
  let ?w = "if n \<noteq> 0 then w\<lparr>warnings := warnings w @ [batch_size_warning]\<rparr> else w"
  have h: "heap ?w = heap w" by simp
  have "list_all (\<lambda>r. rec_type (heap ?w r) \<in> set supported_types) (to_import archive warc_path)"
    unfolding h by (rule assms)
  from import_loop_fold [OF this, of truth "WarcDB_init db_path n"]
  have "import_command truth archive db_path warc_path n w =
      (Inr PyNone, fold (add_record truth (WarcDB_init db_path n)) (to_import archive warc_path) ?w)"
    by (simp add: import_command_def Let_def del: import_loop.simps split: if_splits)
  also have "fold (add_record truth (WarcDB_init db_path n)) (to_import archive warc_path) ?w =
      ingest_files truth (WarcDB_init db_path n) archive warc_path ?w"
    by (simp add: to_import_def ingest_files_def ingest_file_fold fold_concat_lists fold_map comp_def)
  finally show ?thesis .
qed

text \<open>
  Claim C8, as amended. When every record of every file is of a supported type, the
  import command processes every record of every file, the files in the order given and
  the records of a file in file order: its final state is the one the driver of the
  specification reaches, and it has printed exactly these records in this order. It
  returns \<^verbatim>\<open>None\<close>, not a count.
\<close>

theorem import_command_processes_all:
  assumes "list_all (\<lambda>r. rec_type (heap w r) \<in> set supported_types) (to_import archive warc_path)"
  shows "import_command truth archive db_path warc_path n w =
           (Inr PyNone,
            ingest_files truth (WarcDB_init db_path n) archive warc_path
              (if n \<noteq> 0 then w\<lparr>warnings := warnings w @ [batch_size_warning]\<rparr> else w)) \<and>
         stdout (snd (import_command truth archive db_path warc_path n w)) =
           stdout w @ concat (map archive warc_path)"
proof -
  let ?w = "if n \<noteq> 0 then w\<lparr>warnings := warnings w @ [batch_size_warning]\<rparr> else w"
  have "stdout (ingest_files truth (WarcDB_init db_path n) archive warc_path ?w) =
      stdout ?w @ concat (map archive warc_path)"
    using stdout_fold_add_record [of truth "WarcDB_init db_path n" "concat (map archive warc_path)" ?w]
    by (simp add: ingest_files_def ingest_file_fold fold_concat_lists fold_map comp_def)
  then show ?thesis
    by (simp add: import_command_ok [OF assms])
qed

text \<open>The theorem at two files, with two records and one record of the examples.\<close>

theorem import_command_processes_all_witness:
  "list_all (\<lambda>r. rec_type (heap example_world r) \<in> set supported_types)
     (to_import ((\<lambda>_. [])(''a.warc'' := [0, 1], ''b.warc'' := [3])) [''a.warc'', ''b.warc'']) \<and>
   fst (import_command envelope_truth ((\<lambda>_. [])(''a.warc'' := [0, 1], ''b.warc'' := [3]))
          ''a.warcdb'' [''a.warc'', ''b.warc''] 1000 example_world) = Inr PyNone \<and>
   stdout (snd (import_command envelope_truth ((\<lambda>_. [])(''a.warc'' := [0, 1], ''b.warc'' := [3]))
          ''a.warcdb'' [''a.warc'', ''b.warc''] 1000 example_world)) = [0, 1, 3]"
proof -
  let ?archive = "(\<lambda>_. [])(''a.warc'' := [0, 1], ''b.warc'' := [3 :: ref])"
  have 1: "list_all (\<lambda>r. rec_type (heap example_world r) \<in> set supported_types)
     (to_import ?archive [''a.warc'', ''b.warc''])"
    by (simp add: to_import_def example_world_def fresh_world_def example_heap_def
        example_warcinfo_def example_request_def example_metadata_def supported_types_def)
  have 2: "stdout example_world = []"
    by (simp add: example_world_def fresh_world_def)
  note t = import_command_processes_all [OF 1, of envelope_truth "''a.warcdb''" 1000]
  from t [THEN conjunct1]
  have 3: "fst (import_command envelope_truth ?archive ''a.warcdb'' [''a.warc'', ''b.warc''] 1000
      example_world) = Inr PyNone"
    by simp
  from t [THEN conjunct2] 2
  have 4: "stdout (snd (import_command envelope_truth ?archive ''a.warcdb'' [''a.warc'', ''b.warc'']
      1000 example_world)) = [0, 1, 3]"
    by simp
  from 1 3 4 show ?thesis by simp
qed

text \<open>
  Claim C8 as stated fails: for one file with one record the command returns
  \<^verbatim>\<open>None\<close> and not the count 1.
\<close>

theorem import_command_returns_none_counterexample:
  "to_import (\<lambda>_. [0]) [''a.warc''] = [0] \<and>
   fst (import_command envelope_truth (\<lambda>_. [0]) ''a.warcdb'' [''a.warc''] 1000 example_world) = Inr PyNone \<and>
   fst (import_command envelope_truth (\<lambda>_. [0]) ''a.warcdb'' [''a.warc''] 1000 example_world) \<noteq>
     Inr (PyInt 1)"
proof -
  have 1: "list_all (\<lambda>r. rec_type (heap example_world r) \<in> set supported_types)
     (to_import (\<lambda>_. [0]) [''a.warc''])"
    by (simp add: to_import_def example_world_def fresh_world_def example_heap_def
        example_warcinfo_def supported_types_def)
  from import_command_ok [OF 1, of envelope_truth "''a.warcdb''" 1000]
  show ?thesis by (simp add: to_import_def)
qed

section \<open>The batch size\<close>

lemma record_as_dict_warnings:
  "record_as_dict truth r ps kws (w\<lparr>warnings := x\<rparr>) =
     (fst (record_as_dict truth r ps kws w), (snd (record_as_dict truth r ps kws w))\<lparr>warnings := x\<rparr>)"
  by (cases rule: record_as_dict_cases [of w r ps kws truth])
    (simp_all add: record_as_dict_def record_as_dict_body_def)

lemma iadd_warnings:
  "WarcDB_iadd truth self r (w\<lparr>warnings := x\<rparr>) =
     (fst (WarcDB_iadd truth self r w), (snd (WarcDB_iadd truth self r w))\<lparr>warnings := x\<rparr>)"
proof (cases "rec_type (heap w r) \<in> set supported_types")
  case True
  then have s: "rec_type (heap (w\<lparr>warnings := x\<rparr>) r) \<in> set supported_types" by simp
  show ?thesis
    by (simp add: iadd_supported [OF s] iadd_supported [OF True] record_as_dict_warnings
        insert_row_def split: prod.splits sum.splits)
next
  case False
  then have s: "rec_type (heap (w\<lparr>warnings := x\<rparr>) r) \<notin> set supported_types" by simp
  show ?thesis
    by (simp add: iadd_unsupported_eq [OF s] iadd_unsupported_eq [OF False])
qed

lemma iadd_self:
  "WarcDB_iadd truth self r w =
     (map_sum id (\<lambda>_. self) (fst (WarcDB_iadd truth self' r w)), snd (WarcDB_iadd truth self' r w))"
proof (cases "rec_type (heap w r) \<in> set supported_types")
  case True
  show ?thesis
    by (simp add: iadd_supported [OF True] split: prod.splits sum.splits)
next
  case False
  then show ?thesis by (simp add: iadd_unsupported_eq)
qed

lemma import_loop_warnings:
  "import_loop truth self rs (w\<lparr>warnings := x\<rparr>) =
     (fst (import_loop truth self rs w), (snd (import_loop truth self rs w))\<lparr>warnings := x\<rparr>)"
proof (induction rs arbitrary: self w)
  case Nil
  then show ?case by simp
next
  case (Cons r rs)
  let ?w = "w\<lparr>stdout := stdout w @ [r]\<rparr>"
  have "WarcDB_iadd truth self r (w\<lparr>warnings := x, stdout := stdout w @ [r]\<rparr>) =
      (fst (WarcDB_iadd truth self r ?w), (snd (WarcDB_iadd truth self r ?w))\<lparr>warnings := x\<rparr>)"
  proof -
    have "w\<lparr>warnings := x, stdout := stdout w @ [r]\<rparr> = ?w\<lparr>warnings := x\<rparr>"
      by (cases w) simp
    then show ?thesis
      by (simp only: iadd_warnings)
  qed
  then show ?case
    by (cases "WarcDB_iadd truth self r ?w") (auto simp: Cons.IH split: sum.splits)
qed

lemma import_loop_self:
  "import_loop truth self rs w =
     (map_sum id (\<lambda>_. self) (fst (import_loop truth self' rs w)), snd (import_loop truth self' rs w))"
proof (induction rs arbitrary: w)
  case Nil
  then show ?case by simp
next
  case (Cons r rs)
  let ?w = "w\<lparr>stdout := stdout w @ [r]\<rparr>"
  show ?case
  proof (cases "rec_type (heap ?w r) \<in> set supported_types")
    case True
    obtain w' where a: "WarcDB_iadd truth self r ?w = (Inr self, w')"
      using iadd_ok [OF True, of truth self] by (cases "WarcDB_iadd truth self r ?w") simp
    from iadd_self [of truth self' r ?w self] a
    have b: "WarcDB_iadd truth self' r ?w = (Inr self', w')"
      by (cases "WarcDB_iadd truth self' r ?w") (auto simp: map_sum_def split: sum.splits)
    from a b Cons.IH [of w'] show ?thesis by simp
  next
    case False
    then show ?thesis by (simp add: iadd_unsupported_eq)
  qed
qed

lemma warnings_import_loop: "warnings (snd (import_loop truth self rs w)) = warnings w"
proof (induction rs arbitrary: self w)
  case Nil
  then show ?case by simp
next
  case (Cons r rs)
  let ?w = "w\<lparr>stdout := stdout w @ [r]\<rparr>"
  have h: "warnings (snd (WarcDB_iadd truth self r ?w)) = warnings w"
    using warnings_iadd [of truth self r ?w] by simp
  show ?case
  proof (cases "WarcDB_iadd truth self r ?w")
    case (Pair res w')
    with h have "warnings w' = warnings w" by simp
    with Pair Cons.IH [of _ w'] show ?thesis
      by (cases res) simp_all
  qed
qed

lemma import_command_unfold:
  "import_command truth archive db_path warc_path n w =
     (map_sum id (\<lambda>_. PyNone) (fst (import_loop truth (WarcDB_init db_path 0) (to_import archive warc_path) w)),
      (snd (import_loop truth (WarcDB_init db_path 0) (to_import archive warc_path) w))
        \<lparr>warnings := warnings w @ (if n \<noteq> 0 then [batch_size_warning] else [])\<rparr>)"
proof -
  let ?rs = "to_import archive warc_path"
  let ?l = "import_loop truth (WarcDB_init db_path 0) ?rs w"
  have s: "import_loop truth (WarcDB_init db_path n) ?rs w' =
      (map_sum id (\<lambda>_. WarcDB_init db_path n) (fst (import_loop truth (WarcDB_init db_path 0) ?rs w')),
       snd (import_loop truth (WarcDB_init db_path 0) ?rs w'))" for w'
    by (rule import_loop_self)
  have k: "(snd ?l)\<lparr>warnings := warnings w\<rparr> = snd ?l"
    using warnings_import_loop [of truth "WarcDB_init db_path 0" ?rs w] by simp
  obtain res w' where l: "?l = (res, w')" by (cases ?l)
  show ?thesis
  proof (cases "n = 0")
    case True
    then show ?thesis
      using k l by (cases res) (simp_all add: import_command_def Let_def)
  next
    case False
    then show ?thesis
      using l by (cases res) (simp_all add: import_command_def Let_def s import_loop_warnings)
  qed
qed

text \<open>
  Claim C9, as amended. The import command issues the warning that the batch size is
  disabled exactly once when the batch size is not 0, and issues no warning when it is 0.
  The batch size has no other effect: the outcome, the store and the records printed are
  the same for any two batch sizes, each record being inserted on its own.
\<close>

theorem batch_size_is_inert:
  "warnings (snd (import_command truth archive db_path warc_path n w)) =
     warnings w @ (if n \<noteq> 0 then [batch_size_warning] else []) \<and>
   fst (import_command truth archive db_path warc_path n w) =
     fst (import_command truth archive db_path warc_path m w) \<and>
   db (snd (import_command truth archive db_path warc_path n w)) =
     db (snd (import_command truth archive db_path warc_path m w)) \<and>
   stdout (snd (import_command truth archive db_path warc_path n w)) =
     stdout (snd (import_command truth archive db_path warc_path m w))"
  by (simp add: import_command_unfold [of truth archive db_path warc_path n]
      import_command_unfold [of truth archive db_path warc_path m])

text \<open>
  Claim C9 as stated fails for the batch size 0: no warning is issued, while the default
  1000 gives one.
\<close>

theorem batch_size_zero_counterexample:
  "warnings (snd (import_command envelope_truth (\<lambda>_. [0]) ''a.warcdb'' [''a.warc''] 0 example_world)) = [] \<and>
   warnings (snd (import_command envelope_truth (\<lambda>_. [0]) ''a.warcdb'' [''a.warc''] 1000 example_world)) =
     [batch_size_warning]"
  by (simp add: import_command_unfold example_world_def fresh_world_def)

section \<open>Adding a record again\<close>

lemma keys_dict_setitem: "fst ` set (dict_setitem k v d) = insert k (fst ` set d)"
  by (simp add: dict_setitem_def dom_update)

lemma keys_dict_update_image: "fst ` set (dict_update d items) = fst ` set d \<union> fst ` set items"
  using keys_dict_update [of d items] by simp

lemma keys_PyStr: "fst ` (\<lambda>(k, v). (k, PyStr v)) ` A = fst ` A"
  by force

lemma keys_build_row:
  "set (map fst (build_row truth self hh pl payload)) = row_keys self hh pl"
  by (simp add: build_row_def Let_def keys_dict_setitem keys_dict_update_image py_dict_def
      row_keys_def keys_PyStr)

lemma cache_ok_stdout [simp]: "cache_ok truth (w\<lparr>stdout := x\<rparr>) = cache_ok truth w"
  by (simp add: cache_ok_def)

lemma cache_ok_db [simp]: "cache_ok truth (w\<lparr>db := x\<rparr>) = cache_ok truth w"
  by (simp add: cache_ok_def)

lemma record_as_dict_cache_ok:
  assumes "cache_ok truth w" and "record_as_dict truth r [] (as_dict_kwargs rt) w = (Inr ret, w1)"
  shows "(\<exists>payload. ret = build_row truth (heap w r) (fst (spec_flags rt)) (snd (spec_flags rt)) payload) \<and>
         cache_ok truth w1"
proof (cases rule: record_as_dict_cases [of w r "[]" "as_dict_kwargs rt" truth])
  case (hit ret')
  with assms(1) obtain hh pl payload where "bind_args [] (as_dict_kwargs rt) = Inr (hh, pl)"
    and "ret' = build_row truth (heap w r) hh pl payload"
    unfolding cache_ok_def by blast
  with hit assms show ?thesis by (auto simp: bind_args_kwargs)
next
  case (error e)
  then show ?thesis by (simp add: bind_args_kwargs)
next
  case (miss hh pl)
  then have f: "spec_flags rt = (hh, pl)" by (simp add: bind_args_kwargs)
  from miss(3) assms(2) have ret: "ret = build_row truth (heap w r) hh pl (stream w r)"
    and w1: "w1 = (if pl then w\<lparr>stream := (stream w)(r := [])\<rparr> else w)
           \<lparr>cache := (cache w)((r, [], as_dict_kwargs rt) \<mapsto> build_row truth (heap w r) hh pl (stream w r))\<rparr>"
    by simp_all
  have "cache_ok truth w1"
    unfolding cache_ok_def
  proof (intro allI impI)
    fix r' ps kws ret'
    assume c: "cache w1 (r', ps, kws) = Some ret'"
    show "\<exists>hh pl payload. bind_args ps kws = Inr (hh, pl) \<and> ret' = build_row truth (heap w1 r') hh pl payload"
    proof (cases "(r', ps, kws) = (r, [], as_dict_kwargs rt)")
      case True
      with c w1 miss(2) show ?thesis by (auto split: if_splits)
    next
      case False
      with c w1 have "cache w (r', ps, kws) = Some ret'" by (auto split: if_splits)
      with assms(1) obtain hh' pl' payload' where "bind_args ps kws = Inr (hh', pl')"
        "ret' = build_row truth (heap w r') hh' pl' payload'"
        unfolding cache_ok_def by blast
      moreover have "heap w1 = heap w" using w1 by simp
      ultimately show ?thesis by auto
    qed
  qed
  with ret f show ?thesis by auto
qed

lemma missing_columns_none:
  assumes "set (map fst ret) \<subseteq> set (map fst cols)"
  shows "missing_columns hints ret cols = []"
proof -
  have "\<forall>x\<in>set ret. \<not> (case x of (k, v) \<Rightarrow> k \<notin> set (map fst cols))"
  proof
    fix x
    assume "x \<in> set ret"
    then have "fst x \<in> set (map fst ret)" by simp
    with assms have "fst x \<in> set (map fst cols)" by blast
    then show "\<not> (case x of (k, v) \<Rightarrow> k \<notin> set (map fst cols))"
      by (simp add: case_prod_beta)
  qed
  then have "filter (\<lambda>(k, v). k \<notin> set (map fst cols)) ret = []"
    by (rule filter_False)
  then show ?thesis
    by (simp only: missing_columns_def list.map)
qed

lemma table_insert_noop:
  assumes "d name = Some t" and "set (map fst ret) \<subseteq> set (map fst (table_columns t))"
    and "pk_conflict (pk opts) ret (table_rows t)" and "ignore opts"
  shows "table_insert name ret opts d = Inr d"
proof -
  have m: "missing_columns (columns opts) ret (table_columns t) = []"
    using assms(2) by (rule missing_columns_none)
  have t: "t\<lparr>table_columns := table_columns t @ []\<rparr> = t" by simp
  have d: "d(name \<mapsto> t) = d" using assms(1) by (rule map_upd_triv)
  show ?thesis
    unfolding table_insert_def Let_def assms(1) option.case m t
    using assms(3,4) d by simp
qed

lemma table_insert_result:
  assumes "alter opts" and "ignore opts"
    and "t0 = (case d name of None \<Rightarrow> create_table opts | Some t \<Rightarrow> t)"
  shows "table_insert name ret opts d =
      Inr (d(name \<mapsto>
        \<lparr>table_pk = table_pk t0, table_fks = table_fks t0,
         table_columns = table_columns t0 @ missing_columns (columns opts) ret (table_columns t0),
         table_rows = (if pk_conflict (pk opts) ret (table_rows t0) then table_rows t0
                       else table_rows t0 @ [ret])\<rparr>))"
  unfolding table_insert_ignore [OF assms(1,2)] Let_def assms(3) [symmetric]
  by (cases t0) simp

lemma keys_missing_columns:
  "set (map fst ret) \<subseteq> set (map fst (cols @ missing_columns hints ret cols))"
proof
  fix k
  assume "k \<in> set (map fst ret)"
  then obtain v where kv: "(k, v) \<in> set ret" by auto
  show "k \<in> set (map fst (cols @ missing_columns hints ret cols))"
  proof (cases "k \<in> set (map fst cols)")
    case True
    then show ?thesis by simp
  next
    case False
    with kv have "(k, v) \<in> set (filter (\<lambda>(k, v). k \<notin> set (map fst cols)) ret)" by simp
    then have "k \<in> fst ` set (missing_columns hints ret cols)"
      unfolding missing_columns_def by (force simp: image_iff)
    then show ?thesis by simp
  qed
qed

lemma table_insert_covers:
  assumes "alter opts" and "ignore opts" and "table_insert name ret opts d = Inr d'"
    and "row_pk (pk opts) ret = Some v"
  shows "\<exists>t'. d' name = Some t' \<and> Some v \<in> set (map (row_pk (pk opts)) (table_rows t')) \<and>
           set (map fst ret) \<subseteq> set (map fst (table_columns t'))"
proof -
  define t0 where "t0 = (case d name of None \<Rightarrow> create_table opts | Some t \<Rightarrow> t)"
  note r = table_insert_result [where d = d and name = name and ret = ret, OF assms(1,2) t0_def]
  define rows where
    "rows = (if pk_conflict (pk opts) ret (table_rows t0) then table_rows t0 else table_rows t0 @ [ret])"
  define cols where
    "cols = table_columns t0 @ missing_columns (columns opts) ret (table_columns t0)"
  define T where
    "T = \<lparr>table_pk = table_pk t0, table_fks = table_fks t0, table_columns = cols, table_rows = rows\<rparr>"
  from assms(3) [symmetric] r have "Inr d' = (Inr (d(name \<mapsto> T)) :: py_error + database)"
    unfolding T_def rows_def cols_def by (rule trans)
  then have d': "d' = d(name \<mapsto> T)" by (simp only: sum.inject)
  have pkv: "Some v \<in> set (map (row_pk (pk opts)) rows)"
  proof (cases "pk_conflict (pk opts) ret (table_rows t0)")
    case True
    then have "Some v \<in> set (map (row_pk (pk opts)) (table_rows t0))"
      unfolding pk_conflict_def assms(4) by simp
    with True show ?thesis by (simp add: rows_def)
  next
    case False
    then have "rows = table_rows t0 @ [ret]" by (simp add: rows_def)
    with assms(4) show ?thesis by simp
  qed
  have k: "set (map fst ret) \<subseteq> set (map fst cols)"
    unfolding cols_def by (rule keys_missing_columns)
  have "d' name = Some T" by (simp add: d')
  moreover have "table_rows T = rows" "table_columns T = cols" by (simp_all add: T_def)
  ultimately show ?thesis using pkv k by metis
qed

lemma table_insert_mono:
  assumes "alter opts" and "ignore opts" and "table_insert name ret opts d = Inr d'"
    and "d n = Some t"
  shows "\<exists>t'. d' n = Some t' \<and> set (table_rows t) \<subseteq> set (table_rows t') \<and>
           set (map fst (table_columns t)) \<subseteq> set (map fst (table_columns t'))"
proof (cases "n = name")
  case True
  define t0 where "t0 = (case d name of None \<Rightarrow> create_table opts | Some t \<Rightarrow> t)"
  note r = table_insert_result [where d = d and name = name and ret = ret, OF assms(1,2) t0_def]
  from t0_def True assms(4) have t0: "t0 = t" by simp
  from assms(3) [symmetric] r have "Inr d' = (Inr (d(name \<mapsto>
        \<lparr>table_pk = table_pk t0, table_fks = table_fks t0,
         table_columns = table_columns t0 @ missing_columns (columns opts) ret (table_columns t0),
         table_rows = (if pk_conflict (pk opts) ret (table_rows t0) then table_rows t0
                       else table_rows t0 @ [ret])\<rparr>)) :: py_error + database)"
    by (rule trans)
  then have "d' = d(name \<mapsto>
        \<lparr>table_pk = table_pk t0, table_fks = table_fks t0,
         table_columns = table_columns t0 @ missing_columns (columns opts) ret (table_columns t0),
         table_rows = (if pk_conflict (pk opts) ret (table_rows t0) then table_rows t0
                       else table_rows t0 @ [ret])\<rparr>)"
    by (simp only: sum.inject)
  with True t0 show ?thesis by auto
next
  case False
  with table_insert_other [OF assms(3), of n] assms(4) show ?thesis by auto
qed

lemma coveredD:
  assumes "covered d self"
  shows "\<exists>t i. d (rec_type self) = Some t \<and> record_id self = Some i \<and>
           Some (PyStr i) \<in> set (map (row_pk ''WARC-Record-ID'') (table_rows t)) \<and>
           row_keys self (fst (spec_flags (rec_type self))) (snd (spec_flags (rec_type self)))
             \<subseteq> set (map fst (table_columns t))"
proof (cases "d (rec_type self)")
  case None
  with assms show ?thesis by (simp add: covered_def)
next
  case (Some t)
  show ?thesis
  proof (cases "record_id self")
    case None
    with assms Some show ?thesis by (simp add: covered_def)
  next
    case (Some i)
    with assms \<open>d (rec_type self) = Some t\<close> show ?thesis by (simp add: covered_def)
  qed
qed

lemma coveredI:
  assumes "d (rec_type self) = Some t" and "record_id self = Some i"
    and "Some (PyStr i) \<in> set (map (row_pk ''WARC-Record-ID'') (table_rows t))"
    and "row_keys self (fst (spec_flags (rec_type self))) (snd (spec_flags (rec_type self)))
             \<subseteq> set (map fst (table_columns t))"
  shows "covered d self"
  using assms by (simp add: covered_def)

lemma covered_mono:
  assumes "alter opts" and "ignore opts" and "table_insert name ret opts d = Inr d'"
    and "covered d self"
  shows "covered d' self"
proof -
  from coveredD [OF assms(4)] obtain t i where t: "d (rec_type self) = Some t"
    and i: "record_id self = Some i"
    and a: "Some (PyStr i) \<in> set (map (row_pk ''WARC-Record-ID'') (table_rows t))"
    and b: "row_keys self (fst (spec_flags (rec_type self))) (snd (spec_flags (rec_type self)))
            \<subseteq> set (map fst (table_columns t))"
    by blast
  from table_insert_mono [OF assms(1,2,3) t] obtain t' where t': "d' (rec_type self) = Some t'"
    and r: "set (table_rows t) \<subseteq> set (table_rows t')"
    and c: "set (map fst (table_columns t)) \<subseteq> set (map fst (table_columns t'))"
    by blast
  from a r have "Some (PyStr i) \<in> set (map (row_pk ''WARC-Record-ID'') (table_rows t'))" by auto
  moreover from b c have "row_keys self (fst (spec_flags (rec_type self))) (snd (spec_flags (rec_type self)))
            \<subseteq> set (map fst (table_columns t'))"
    by (rule subset_trans)
  ultimately show ?thesis using t' i by (intro coveredI)
qed

lemma insert_opts_simps [simp]:
  "pk (insert_opts rt) = ''WARC-Record-ID''" "alter (insert_opts rt)" "ignore (insert_opts rt)"
  by (simp_all add: insert_opts_def)

lemma iadd_built:
  assumes "rec_type (heap w r) \<in> set supported_types" and "cache_ok truth w"
  shows "\<exists>ret w1 d payload.
    ret = build_row truth (heap w r) (fst (spec_flags (rec_type (heap w r))))
       (snd (spec_flags (rec_type (heap w r)))) payload \<and>
    table_insert (rec_type (heap w r)) ret (insert_opts (rec_type (heap w r))) (db w) = Inr d \<and>
    WarcDB_iadd truth self r w = (Inr self, w1\<lparr>db := d\<rparr>) \<and>
    heap w1 = heap w \<and> cache_ok truth w1"
proof -
  let ?rt = "rec_type (heap w r)"
  obtain ret w1 d where a: "record_as_dict truth r [] (as_dict_kwargs ?rt) w = (Inr ret, w1)"
    and d: "table_insert ?rt ret (insert_opts ?rt) (db w1) = Inr d"
    and i: "WarcDB_iadd truth self r w = (Inr self, w1\<lparr>db := d\<rparr>)"
    and fr: "heap w1 = heap w" "db w1 = db w"
    using iadd_supported_result [OF assms(1), of truth self] by blast
  from record_as_dict_cache_ok [OF assms(2) a] obtain payload where
    r: "ret = build_row truth (heap w r) (fst (spec_flags ?rt)) (snd (spec_flags ?rt)) payload"
    and ok: "cache_ok truth w1"
    by blast
  from d fr(2) have d': "table_insert ?rt ret (insert_opts ?rt) (db w) = Inr d" by simp
  from r d' i fr(1) ok show ?thesis by blast
qed

lemma iadd_covers:
  assumes "rec_type (heap w r) \<in> set supported_types" and "record_id (heap w r) = Some i"
    and "cache_ok truth w"
  shows "\<exists>w'. WarcDB_iadd truth self r w = (Inr self, w') \<and> heap w' = heap w \<and>
           cache_ok truth w' \<and> covered (db w') (heap w r) \<and>
           (\<forall>rec. covered (db w) rec \<longrightarrow> covered (db w') rec)"
proof -
  let ?rt = "rec_type (heap w r)"
  obtain ret w1 d payload where
    ret: "ret = build_row truth (heap w r) (fst (spec_flags ?rt)) (snd (spec_flags ?rt)) payload"
    and d: "table_insert ?rt ret (insert_opts ?rt) (db w) = Inr d"
    and i: "WarcDB_iadd truth self r w = (Inr self, w1\<lparr>db := d\<rparr>)"
    and fr: "heap w1 = heap w" "cache_ok truth w1"
    using iadd_built [OF assms(1,3), of self] by (elim exE conjE)
  have al: "alter (insert_opts ?rt)" "ignore (insert_opts ?rt)" by simp_all
  have rp: "row_pk (pk (insert_opts ?rt)) ret = Some (PyStr i)"
    by (simp add: ret row_pk_build_row assms(2))
  have "\<exists>t'. d ?rt = Some t' \<and>
      Some (PyStr i) \<in> set (map (row_pk ''WARC-Record-ID'') (table_rows t')) \<and>
      set (map fst ret) \<subseteq> set (map fst (table_columns t'))"
    using table_insert_covers [OF al d rp] by (simp only: insert_opts_simps)
  then obtain t' where t': "d ?rt = Some t'"
    and p: "Some (PyStr i) \<in> set (map (row_pk ''WARC-Record-ID'') (table_rows t'))"
    and k: "set (map fst ret) \<subseteq> set (map fst (table_columns t'))"
    by blast
  from k have "row_keys (heap w r) (fst (spec_flags ?rt)) (snd (spec_flags ?rt))
      \<subseteq> set (map fst (table_columns t'))"
    by (simp only: ret keys_build_row)
  with t' assms(2) p have c: "covered d (heap w r)"
    by (rule coveredI)
  have m: "covered d rec" if "covered (db w) rec" for rec
    using al d that by (rule covered_mono)
  from i fr c m show ?thesis by simp
qed

lemma iadd_noop:
  assumes "rec_type (heap w r) \<in> set supported_types" and "cache_ok truth w"
    and "covered (db w) (heap w r)"
  shows "\<exists>w'. WarcDB_iadd truth self r w = (Inr self, w') \<and> heap w' = heap w \<and>
           cache_ok truth w' \<and> db w' = db w"
proof -
  let ?rt = "rec_type (heap w r)"
  obtain ret w1 d payload where
    ret: "ret = build_row truth (heap w r) (fst (spec_flags ?rt)) (snd (spec_flags ?rt)) payload"
    and d: "table_insert ?rt ret (insert_opts ?rt) (db w) = Inr d"
    and i: "WarcDB_iadd truth self r w = (Inr self, w1\<lparr>db := d\<rparr>)"
    and fr: "heap w1 = heap w" "cache_ok truth w1"
    using iadd_built [OF assms(1,2), of self] by (elim exE conjE)
  from coveredD [OF assms(3)] obtain t i where t: "db w ?rt = Some t"
    and id: "record_id (heap w r) = Some i"
    and p: "Some (PyStr i) \<in> set (map (row_pk ''WARC-Record-ID'') (table_rows t))"
    and k: "row_keys (heap w r) (fst (spec_flags ?rt)) (snd (spec_flags ?rt))
            \<subseteq> set (map fst (table_columns t))"
    by blast
  have k': "set (map fst ret) \<subseteq> set (map fst (table_columns t))"
    using k by (simp only: ret keys_build_row)
  have "row_pk ''WARC-Record-ID'' ret = Some (PyStr i)"
    by (simp add: ret row_pk_build_row id)
  with p have c: "pk_conflict (pk (insert_opts ?rt)) ret (table_rows t)"
    by (simp add: pk_conflict_def)
  have "table_insert ?rt ret (insert_opts ?rt) (db w) = Inr (db w)"
    using t k' c by (rule table_insert_noop) simp
  with d have "d = db w" by simp
  with i fr show ?thesis by simp
qed

lemma import_loop_covers:
  assumes "list_all (\<lambda>r. rec_type (heap w r) \<in> set supported_types \<and> record_id (heap w r) \<noteq> None) rs"
    and "cache_ok truth w"
  shows "\<exists>w'. import_loop truth self rs w = (Inr self, w') \<and> heap w' = heap w \<and>
           cache_ok truth w' \<and> list_all (\<lambda>r. covered (db w') (heap w r)) rs \<and>
           (\<forall>rec. covered (db w) rec \<longrightarrow> covered (db w') rec)"
  using assms
proof (induction rs arbitrary: w)
  case Nil
  then show ?case by simp
next
  case (Cons r rs)
  let ?w = "w\<lparr>stdout := stdout w @ [r]\<rparr>"
  from Cons.prems(1) obtain i where s: "rec_type (heap ?w r) \<in> set supported_types"
    and id: "record_id (heap ?w r) = Some i"
    by auto
  from Cons.prems(2) have ok: "cache_ok truth ?w" by simp
  from iadd_covers [OF s id ok, of self] obtain w1 where
    a: "WarcDB_iadd truth self r ?w = (Inr self, w1)" and h1: "heap w1 = heap w"
    and ok1: "cache_ok truth w1" and c1: "covered (db w1) (heap w r)"
    and m1: "\<forall>rec. covered (db w) rec \<longrightarrow> covered (db w1) rec"
    by auto
  from Cons.prems(1) have
    "list_all (\<lambda>p. rec_type (heap w1 p) \<in> set supported_types \<and> record_id (heap w1 p) \<noteq> None) rs"
    by (simp add: h1)
  from Cons.IH [OF this ok1] obtain w2 where
    b: "import_loop truth self rs w1 = (Inr self, w2)" and h2: "heap w2 = heap w1"
    and ok2: "cache_ok truth w2" and c2: "list_all (\<lambda>p. covered (db w2) (heap w1 p)) rs"
    and m2: "\<forall>rec. covered (db w1) rec \<longrightarrow> covered (db w2) rec"
    by auto
  from a b have "import_loop truth self (r # rs) w = (Inr self, w2)" by simp
  moreover from h1 h2 have "heap w2 = heap w" by simp
  moreover from c1 m2 have "covered (db w2) (heap w r)" by blast
  moreover from c2 have "list_all (\<lambda>p. covered (db w2) (heap w p)) rs" by (simp add: h1)
  moreover from m1 m2 have "\<forall>rec. covered (db w) rec \<longrightarrow> covered (db w2) rec" by blast
  ultimately show ?case using ok2 by simp
qed

lemma import_loop_noop:
  assumes "list_all (\<lambda>r. rec_type (heap w r) \<in> set supported_types \<and> covered (db w) (heap w r)) rs"
    and "cache_ok truth w"
  shows "\<exists>w'. import_loop truth self rs w = (Inr self, w') \<and> db w' = db w"
  using assms
proof (induction rs arbitrary: w)
  case Nil
  then show ?case by simp
next
  case (Cons r rs)
  let ?w = "w\<lparr>stdout := stdout w @ [r]\<rparr>"
  from Cons.prems(1) have s: "rec_type (heap ?w r) \<in> set supported_types"
    and c: "covered (db ?w) (heap ?w r)"
    by auto
  from Cons.prems(2) have ok: "cache_ok truth ?w" by simp
  from iadd_noop [OF s ok c, of self] obtain w1 where
    a: "WarcDB_iadd truth self r ?w = (Inr self, w1)" and h1: "heap w1 = heap w"
    and ok1: "cache_ok truth w1" and d1: "db w1 = db w"
    by auto
  from Cons.prems(1) have
    "list_all (\<lambda>p. rec_type (heap w1 p) \<in> set supported_types \<and> covered (db w1) (heap w1 p)) rs"
    by (simp add: h1 d1)
  from Cons.IH [OF this ok1] obtain w2 where
    b: "import_loop truth self rs w1 = (Inr self, w2)" and d2: "db w2 = db w1"
    by auto
  from a b d1 d2 show ?case by simp
qed

lemma iadd_conflict:
  assumes "rec_type (heap w r) \<in> set supported_types" and "cache_ok truth w"
    and "record_id (heap w r) = Some i"
    and "Some (PyStr i) \<in> set (map (row_pk ''WARC-Record-ID'') (stored_rows (rec_type (heap w r)) w))"
  shows "fst (WarcDB_iadd truth self r w) = Inr self \<and>
         stored_rows (rec_type (heap w r)) (snd (WarcDB_iadd truth self r w)) =
           stored_rows (rec_type (heap w r)) w"
proof -
  let ?rt = "rec_type (heap w r)"
  obtain ret w1 d payload where
    ret: "ret = build_row truth (heap w r) (fst (spec_flags ?rt)) (snd (spec_flags ?rt)) payload"
    and d: "table_insert ?rt ret (insert_opts ?rt) (db w) = Inr d"
    and i: "WarcDB_iadd truth self r w = (Inr self, w1\<lparr>db := d\<rparr>)"
    using iadd_built [OF assms(1,2), of self] by (elim exE conjE)
  from assms(4) obtain t where t: "db w ?rt = Some t"
    and p: "Some (PyStr i) \<in> set (map (row_pk ''WARC-Record-ID'') (table_rows t))"
    by (cases "db w ?rt") (simp_all add: stored_rows_def)
  have "row_pk ''WARC-Record-ID'' ret = Some (PyStr i)"
    by (simp add: ret row_pk_build_row assms(3))
  with p have c: "pk_conflict (pk (insert_opts ?rt)) ret (table_rows t)"
    by (simp add: pk_conflict_def)
  define t0 where "t0 = (case db w ?rt of None \<Rightarrow> create_table (insert_opts ?rt) | Some t \<Rightarrow> t)"
  have t0: "t0 = t" by (simp add: t0_def t)
  note r = table_insert_result [where d = "db w" and name = ?rt and ret = ret
      and opts = "insert_opts ?rt", OF _ _ t0_def]
  have "table_insert ?rt ret (insert_opts ?rt) (db w) =
      Inr ((db w)(?rt \<mapsto>
        \<lparr>table_pk = table_pk t, table_fks = table_fks t,
         table_columns = table_columns t @ missing_columns (columns (insert_opts ?rt)) ret (table_columns t),
         table_rows = table_rows t\<rparr>))"
    using r c by (simp add: t0)
  with d have "d ?rt = Some
        \<lparr>table_pk = table_pk t, table_fks = table_fks t,
         table_columns = table_columns t @ missing_columns (columns (insert_opts ?rt)) ret (table_columns t),
         table_rows = table_rows t\<rparr>"
    by auto
  with i t show ?thesis by (simp add: stored_rows_def)
qed

text \<open>
  Claim C2. A list of records of supported types, each with a \<^verbatim>\<open>WARC-Record-ID\<close>
  header, is ingested from any store, in a state whose cache holds only rows
  \<^verbatim>\<open>record_as_dict\<close> built. Ingesting the list succeeds; ingesting it again succeeds and
  leaves every table of the store exactly as the first pass left it. The same holds when
  the second pass reads the records anew, as other objects with the same type and
  headers. A single record whose identifier is already the primary key of a row of its
  table is added without an error, and the rows of that table stay as they are: no row is
  repeated and none is replaced.
\<close>

theorem ingest_twice:
  assumes "list_all (\<lambda>r. rec_type (heap w r) \<in> set supported_types \<and> record_id (heap w r) \<noteq> None) rs"
    and "cache_ok truth w"
    and "map (heap w) rs' = map (heap w) rs"
  shows "fst (import_loop truth self rs w) = Inr self \<and>
         fst (import_loop truth self rs (snd (import_loop truth self rs w))) = Inr self \<and>
         db (snd (import_loop truth self rs (snd (import_loop truth self rs w)))) =
           db (snd (import_loop truth self rs w)) \<and>
         fst (import_loop truth self rs' (snd (import_loop truth self rs w))) = Inr self \<and>
         db (snd (import_loop truth self rs' (snd (import_loop truth self rs w)))) =
           db (snd (import_loop truth self rs w)) \<and>
         (\<forall>r i. rec_type (heap w r) \<in> set supported_types \<and> record_id (heap w r) = Some i \<and>
            Some (PyStr i) \<in> set (map (row_pk ''WARC-Record-ID'') (stored_rows (rec_type (heap w r)) w)) \<longrightarrow>
            fst (WarcDB_iadd truth self r w) = Inr self \<and>
            stored_rows (rec_type (heap w r)) (snd (WarcDB_iadd truth self r w)) =
              stored_rows (rec_type (heap w r)) w)"
proof -
  obtain w1 where 1: "import_loop truth self rs w = (Inr self, w1)" and h1: "heap w1 = heap w"
    and ok1: "cache_ok truth w1" and c1: "list_all (\<lambda>r. covered (db w1) (heap w r)) rs"
    using import_loop_covers [OF assms(1,2), of self] by (elim exE conjE)
  have again: "\<exists>w2. import_loop truth self xs w1 = (Inr self, w2) \<and> db w2 = db w1"
    if "map (heap w) xs = map (heap w) rs" for xs
  proof -
    have "rec_type (heap w1 x) \<in> set supported_types \<and> covered (db w1) (heap w1 x)"
      if "x \<in> set xs" for x
    proof -
      from that have "heap w x \<in> set (map (heap w) xs)" by simp
      with \<open>map (heap w) xs = map (heap w) rs\<close> obtain r where "r \<in> set rs" "heap w x = heap w r"
        by auto
      with assms(1) c1 show ?thesis by (auto simp: list_all_iff h1)
    qed
    then have "list_all (\<lambda>x. rec_type (heap w1 x) \<in> set supported_types \<and> covered (db w1) (heap w1 x)) xs"
      by (simp add: list_all_iff)
    from import_loop_noop [OF this ok1, of self] show ?thesis .
  qed
  from again [of rs] obtain w2 where 2: "import_loop truth self rs w1 = (Inr self, w2)" "db w2 = db w1"
    by auto
  from again [OF assms(3)] obtain w3 where 3: "import_loop truth self rs' w1 = (Inr self, w3)" "db w3 = db w1"
    by auto
  from 1 2 3 iadd_conflict [OF _ assms(2), of _ _ self] show ?thesis by simp
qed

text \<open>
  The theorem at the warcinfo, the request and the metadata record of the examples, in a
  fresh process.
\<close>

theorem ingest_twice_witness:
  "list_all (\<lambda>r. rec_type (heap example_world r) \<in> set supported_types \<and>
       record_id (heap example_world r) \<noteq> None) [0, 1, 3] \<and>
   cache_ok envelope_truth example_world \<and>
   fst (import_loop envelope_truth (WarcDB_init ''a.warcdb'' 1000) [0, 1, 3] example_world) =
     Inr (WarcDB_init ''a.warcdb'' 1000) \<and>
   db (snd (import_loop envelope_truth (WarcDB_init ''a.warcdb'' 1000) [0, 1, 3]
        (snd (import_loop envelope_truth (WarcDB_init ''a.warcdb'' 1000) [0, 1, 3] example_world)))) =
     db (snd (import_loop envelope_truth (WarcDB_init ''a.warcdb'' 1000) [0, 1, 3] example_world))"
proof -
  have 1: "list_all (\<lambda>r. rec_type (heap example_world r) \<in> set supported_types \<and>
       record_id (heap example_world r) \<noteq> None) [0, 1, 3]"
    by (simp add: example_world_def fresh_world_def example_heap_def example_warcinfo_def
        example_request_def example_metadata_def supported_types_def record_id_def)
  have 2: "cache_ok envelope_truth example_world"
    by (simp add: cache_ok_def example_world_def fresh_world_def)
  from ingest_twice [OF 1 2 refl, of "WarcDB_init ''a.warcdb'' 1000"] 1 2
  show ?thesis by simp
qed

section \<open>The stored HTTP headers decode to the header pairs\<close>



end
